theory Spec2Isabelle
  imports Complex_Main
begin

section \<open>Python values\<close>

text \<open>
  A Python \<open>str\<close> is a sequence of code points. Literals of the script are written
  \<open>str ''...''\<close>; the default description, which is Chinese text, is given by its
  code points.
\<close>

type_synonym pystr = "nat list"

definition str :: "string \<Rightarrow> pystr" where
  "str s = map of_char s"

text \<open>
  The floats that \<open>json.load\<close> produces from JSON text: finite values, negative zero and
  the two infinities (a literal too large for a double). The literal \<open>NaN\<close>, which is
  not JSON, is left out.
\<close>

datatype pyfloat = Finite rat | NegZero | PosInf | NegInf

text \<open>Hashable values, the keys of a \<open>dict\<close>; the other values.\<close>

datatype pykey = KNone | KBool bool | KInt int | KFloat pyfloat | KStr pystr

datatype pyval = PNone | PBool bool | PInt int | PFloat pyfloat | PStr pystr
  | PList "pyval list" | PDict "(pykey \<times> pyval) list"

type_synonym pydict = "(pykey \<times> pyval) list"

datatype pyerror = TypeError | AttributeError | KeyError | ValueError
  | MissingUpstream  \<comment> \<open>the \<open>ValueError\<close> raised for an empty \<open>upstream_version\<close>\<close>
  | MissingNad       \<comment> \<open>the \<open>ValueError\<close> raised for an empty \<open>nad_version\<close>\<close>
  | OSError
  | UnicodeEncodeError

text \<open>Truth value of an object, as \<open>not x\<close> and \<open>x or y\<close> test it.\<close>

fun float_zero :: "pyfloat \<Rightarrow> bool" where
  "float_zero (Finite q) = (q = 0)"
| "float_zero NegZero = True"
| "float_zero PosInf = False"
| "float_zero NegInf = False"

fun py_truthy :: "pyval \<Rightarrow> bool" where
  "py_truthy PNone = False"
| "py_truthy (PBool b) = b"
| "py_truthy (PInt i) = (i \<noteq> 0)"
| "py_truthy (PFloat f) = (\<not> float_zero f)"
| "py_truthy (PStr s) = (s \<noteq> [])"
| "py_truthy (PList xs) = (xs \<noteq> [])"
| "py_truthy (PDict kvs) = (kvs \<noteq> [])"

text \<open>
  Equality of keys is Python's \<open>==\<close>: \<open>True == 1 == 1.0\<close>, \<open>-0.0 == 0\<close>, and a
  string equals only a string.
\<close>

datatype keynum = Num rat | Plus_Inf | Minus_Inf

fun float_num :: "pyfloat \<Rightarrow> keynum" where
  "float_num (Finite q) = Num q"
| "float_num NegZero = Num 0"
| "float_num PosInf = Plus_Inf"
| "float_num NegInf = Minus_Inf"

fun key_num :: "pykey \<Rightarrow> keynum option" where
  "key_num KNone = None"
| "key_num (KBool b) = Some (Num (if b then 1 else 0))"
| "key_num (KInt i) = Some (Num (of_int i))"
| "key_num (KFloat f) = Some (float_num f)"
| "key_num (KStr s) = None"

fun key_eq :: "pykey \<Rightarrow> pykey \<Rightarrow> bool" where
  "key_eq (KStr s) (KStr t) = (s = t)"
| "key_eq (KStr s) _ = False"
| "key_eq _ (KStr t) = False"
| "key_eq KNone KNone = True"
| "key_eq KNone _ = False"
| "key_eq _ KNone = False"
| "key_eq a b = (key_num a = key_num b)"

text \<open>
  A \<open>dict\<close> is an association list in insertion order. \<open>d.get(k)\<close> and \<open>k in d\<close> find
  the entry whose key equals \<open>k\<close>; \<open>d[k] = v\<close> replaces the value of that entry in
  place, or appends a new entry.
\<close>

fun dict_get :: "pydict \<Rightarrow> pykey \<Rightarrow> pyval option" where
  "dict_get [] k = None"
| "dict_get ((k', v) # kvs) k = (if key_eq k' k then Some v else dict_get kvs k)"

fun dict_set :: "pydict \<Rightarrow> pykey \<Rightarrow> pyval \<Rightarrow> pydict" where
  "dict_set [] k v = [(k, v)]"
| "dict_set ((k', v') # kvs) k v =
     (if key_eq k' k then (k', v) # kvs else (k', v') # dict_set kvs k v)"

definition get_or :: "pydict \<Rightarrow> pystr \<Rightarrow> pyval \<Rightarrow> pyval" where
  \<comment> \<open>\<open>d.get(name, default)\<close>\<close>
  "get_or d name dflt = (case dict_get d (KStr name) of None \<Rightarrow> dflt | Some v \<Rightarrow> v)"

section \<open>Upstream version fetcher\<close>

text \<open>
  What the script prints, on standard output or on standard error. The texts are Chinese;
  each constructor stands for one \<open>print\<close> of the script.
\<close>

datatype msg =
    FileMissingNotice             \<comment> \<open>stdout, \<open>load_version_mapping\<close>: the file does not exist\<close>
  | LoadFailed                    \<comment> \<open>stderr, \<open>load_version_mapping\<close>: reading or parsing failed\<close>
  | MappingUpdated pystr pystr pystr  \<comment> \<open>stdout, \<open>save_version_mapping\<close>: upstream, NAD, trigger\<close>
  | WriteFailed                   \<comment> \<open>stderr, \<open>save_version_mapping\<close>: the write raised\<close>
  | FetchFailed                   \<comment> \<open>stderr, \<open>get_upstream_version\<close>: curl exited non-zero\<close>
  | FetchError                    \<comment> \<open>stderr, \<open>get_upstream_version\<close>: another exception\<close>
  | ParseFailed                   \<comment> \<open>stderr, \<open>get_upstream_version\<close>: parsing raised\<close>
  | UpstreamLatest pystr          \<comment> \<open>stdout, \<open>get_upstream_version\<close>\<close>
  | UpstreamVersion pystr         \<comment> \<open>stdout, \<open>main\<close>\<close>
  | NoData                        \<comment> \<open>stdout, \<open>list_mappings\<close>: nothing recorded yet\<close>
  | HistoryHeader
  | HistoryLine nat pyval pyval pyval pyval
  | MappingHeader
  | MappingLine bool pykey pyval  \<comment> \<open>the flag is \<open>suffix_ok\<close>\<close>
  | Usage                         \<comment> \<open>stdout, \<open>parser.print_help()\<close>\<close>
  | SaveFailed pyerror            \<comment> \<open>stderr, \<open>main\<close>: \<open>save_version_mapping\<close> raised\<close>
  | ArgparseError                 \<comment> \<open>stderr, usage and error message of \<open>argparse\<close>\<close>
  | Traceback pyerror             \<comment> \<open>stderr, an exception that nothing caught\<close>

text \<open>
  The outcome of the \<open>curl\<close> subprocess: \<open>CalledProcessError\<close> for a non-zero exit,
  another exception (curl missing, output not decodable), or the standard output, given
  as what \<open>json.loads\<close> makes of it: \<open>None\<close> when it raises, the value otherwise.
\<close>

datatype curl_outcome = CalledProcessError | OtherException | Completed "pyval option"

definition lstrip :: "pystr \<Rightarrow> pystr \<Rightarrow> pystr" where
  \<comment> \<open>\<open>s.lstrip(chars)\<close> removes every leading character that occurs in \<open>chars\<close>\<close>
  "lstrip chars s = dropWhile (\<lambda>c. c \<in> set chars) s"

definition tag_version :: "pyval \<Rightarrow> pyerror + pystr" where
  \<comment> \<open>\<open>(release_data.get("tag_name") or "").lstrip("v")\<close>\<close>
  "tag_version release_data =
     (case release_data of
        PDict d \<Rightarrow>
          (let tag = get_or d (str ''tag_name'') PNone;
               t = (if py_truthy tag then tag else PStr [])
           in case t of PStr s \<Rightarrow> Inr (lstrip (str ''v'') s) | _ \<Rightarrow> Inl AttributeError)
      | _ \<Rightarrow> Inl AttributeError)"

definition get_upstream_version :: "curl_outcome \<Rightarrow> pystr option \<times> msg list" where
  "get_upstream_version r =
     (case r of
        CalledProcessError \<Rightarrow> (None, [FetchFailed])
      | OtherException \<Rightarrow> (None, [FetchError])
      | Completed None \<Rightarrow> (None, [ParseFailed])
      | Completed (Some release_data) \<Rightarrow>
          (case tag_version release_data of
             Inl e \<Rightarrow> (None, [ParseFailed])
           | Inr version \<Rightarrow>
               if version \<noteq> [] then (Some version, [UpstreamLatest version]) else (None, [])))"


section \<open>Mapping store\<close>

definition MAX_HISTORY :: nat where
  "MAX_HISTORY = 20"

definition default_description :: pystr where
  "default_description =
     [29256, 26412, 26144, 23556, 37197, 32622, 25991, 20214, 32, 45, 32, 29992, 20110,
      31649, 29702, 19978, 28216, 29256, 26412, 19982, 32, 78, 65, 68, 32, 29256, 26412,
      30340, 23545, 24212, 20851, 31995]"

definition placeholder :: pydict where
  "placeholder =
     [(KStr (str ''timestamp''), PStr []),
      (KStr (str ''upstream_version''), PStr []),
      (KStr (str ''nad_version''), PStr []),
      (KStr (str ''trigger_type''), PStr [])]"

text \<open>
  \<open>SCHEMA_TEMPLATE\<close> is a module-level dict whose nested objects are shared by every
  \<open>dict(SCHEMA_TEMPLATE)\<close>. Of these only the \<open>version_mappings\<close> dict is ever mutated
  (by \<open>save_version_mapping\<close>, when it works on a copy of the template), so the template
  is a function of the current content of that dict.
\<close>

definition SCHEMA_TEMPLATE :: "pydict \<Rightarrow> pydict" where
  "SCHEMA_TEMPLATE vm =
     [(KStr (str ''description''), PStr default_description),
      (KStr (str ''version_mappings''), PDict vm),
      (KStr (str ''sync_history''), PList []),
      (KStr (str ''last_sync''), PDict placeholder)]"

definition last_n :: "nat \<Rightarrow> 'a list \<Rightarrow> 'a list" where
  \<comment> \<open>\<open>xs[-n:]\<close> for \<open>n > 0\<close>\<close>
  "last_n n xs = drop (length xs - n) xs"

text \<open>Iteration, hashing and the \<open>dict(x)\<close> constructor.\<close>

fun key_val :: "pykey \<Rightarrow> pyval" where
  "key_val KNone = PNone"
| "key_val (KBool b) = PBool b"
| "key_val (KInt i) = PInt i"
| "key_val (KFloat f) = PFloat f"
| "key_val (KStr s) = PStr s"

fun val_key :: "pyval \<Rightarrow> pykey option" where
  "val_key PNone = Some KNone"
| "val_key (PBool b) = Some (KBool b)"
| "val_key (PInt i) = Some (KInt i)"
| "val_key (PFloat f) = Some (KFloat f)"
| "val_key (PStr s) = Some (KStr s)"
| "val_key (PList xs) = None"
| "val_key (PDict kvs) = None"

fun py_iter :: "pyval \<Rightarrow> pyerror + pyval list" where
  "py_iter (PList xs) = Inr xs"
| "py_iter (PStr s) = Inr (map (\<lambda>c. PStr [c]) s)"
| "py_iter (PDict kvs) = Inr (map (\<lambda>kv. key_val (fst kv)) kvs)"
| "py_iter _ = Inl TypeError"

fun dict_update_seq :: "pydict \<Rightarrow> pyval list \<Rightarrow> pyerror + pydict" where
  "dict_update_seq d [] = Inr d"
| "dict_update_seq d (item # items) =
     (case py_iter item of
        Inl e \<Rightarrow> Inl TypeError
      | Inr [k, v] \<Rightarrow>
          (case val_key k of
             None \<Rightarrow> Inl TypeError
           | Some key \<Rightarrow> dict_update_seq (dict_set d key v) items)
      | Inr _ \<Rightarrow> Inl ValueError)"

definition py_dict :: "pyval \<Rightarrow> pyerror + pydict" where
  \<comment> \<open>\<open>dict(x)\<close>: a copy of a dict, otherwise a dict built from an iterable of pairs\<close>
  "py_dict x =
     (case x of
        PDict kvs \<Rightarrow> Inr kvs
      | _ \<Rightarrow> (case py_iter x of Inl e \<Rightarrow> Inl e | Inr items \<Rightarrow> dict_update_seq [] items))"

text \<open>\<open>sub in s\<close> for two strings.\<close>

fun starts_with :: "pystr \<Rightarrow> pystr \<Rightarrow> bool" where
  "starts_with [] s = True"
| "starts_with (c # cs) [] = False"
| "starts_with (c # cs) (d # ds) = (c = d \<and> starts_with cs ds)"

fun contains_str :: "pystr \<Rightarrow> pystr \<Rightarrow> bool" where
  "contains_str sub [] = (sub = [])"
| "contains_str sub (c # cs) = (starts_with sub (c # cs) \<or> contains_str sub cs)"

definition rebuild_last_sync :: "pydict \<Rightarrow> pydict" where
  "rebuild_last_sync l =
     [(KStr (str ''timestamp''), get_or l (str ''timestamp'') (PStr [])),
      (KStr (str ''upstream_version''), get_or l (str ''upstream_version'') (PStr [])),
      (KStr (str ''nad_version''), get_or l (str ''nad_version'') (PStr [])),
      (KStr (str ''trigger_type''), get_or l (str ''trigger_type'') (PStr []))]"

text \<open>
  \<open>_ensure_schema(raw)\<close>, for whatever \<open>json.load\<close> returned. The first argument is
  \<open>SCHEMA_TEMPLATE\<close> as it is at the call. On a value that is not a dict the function
  raises: \<open>"description" in raw\<close> is a \<open>TypeError\<close> on a number, a boolean or \<open>None\<close>;
  on a list or a string it is a test, after which either \<open>raw["description"]\<close> raises
  \<open>TypeError\<close> or \<open>raw.get\<close> raises \<open>AttributeError\<close>.
\<close>

definition ensure_schema :: "pydict \<Rightarrow> pyval \<Rightarrow> pyerror + pydict" where
  "ensure_schema template raw =
     (case raw of
        PDict r \<Rightarrow>
          (let data = template;
               data = (case dict_get r (KStr (str ''description'')) of
                         Some d \<Rightarrow> dict_set data (KStr (str ''description'')) d
                       | None \<Rightarrow> data)
           in case py_dict (get_or r (str ''version_mappings'') (PDict [])) of
                Inl e \<Rightarrow> Inl e
              | Inr vm \<Rightarrow>
                  (let data = dict_set data (KStr (str ''version_mappings'')) (PDict vm);
                       history = get_or r (str ''sync_history'') (PList []);
                       data = (case history of
                                 PList h \<Rightarrow>
                                   dict_set data (KStr (str ''sync_history''))
                                     (PList (last_n MAX_HISTORY h))
                               | _ \<Rightarrow> dict_set data (KStr (str ''sync_history'')) (PList []));
                       last_sync = get_or r (str ''last_sync'') (PDict []);
                       data = (case last_sync of
                                 PDict l \<Rightarrow>
                                   dict_set data (KStr (str ''last_sync''))
                                     (PDict (rebuild_last_sync l))
                               | _ \<Rightarrow> data)
                   in Inr data))
      | PList xs \<Rightarrow>
          if PStr (str ''description'') \<in> set xs then Inl TypeError else Inl AttributeError
      | PStr s \<Rightarrow>
          if contains_str (str ''description'') s then Inl TypeError else Inl AttributeError
      | _ \<Rightarrow> Inl TypeError)"

subsection \<open>The backing file\<close>

text \<open>
  The backing file is missing, or exists but cannot be read or parsed, or holds a JSON
  document. \<open>Holds v\<close> is the text \<open>json.dump(v, indent=2, ensure_ascii=False)\<close>; a
  document written by hand may repeat a key in an object, which is a repeated key in the
  association list.

  \<open>json_reload\<close> is \<open>json.load\<close> of that text: the keys that \<open>json.dump\<close> wrote as
  strings stay strings, and of a repeated key the last value is kept, at the first
  position. The parameter \<open>frepr\<close> is \<open>float.__repr__\<close>, which writes a finite
  float key; what it returns is not modelled.
\<close>

datatype fstate = Missing | Unreadable | Holds pyval

fun digits :: "nat \<Rightarrow> pystr" where
  "digits n = (if n < 10 then [48 + n] else digits (n div 10) @ [48 + n mod 10])"

definition int_str :: "int \<Rightarrow> pystr" where
  "int_str i = (if i < 0 then 45 # digits (nat (- i)) else digits (nat i))"

fun json_key :: "(pyfloat \<Rightarrow> pystr) \<Rightarrow> pykey \<Rightarrow> pystr" where
  "json_key frepr (KStr s) = s"
| "json_key frepr KNone = str ''null''"
| "json_key frepr (KBool b) = (if b then str ''true'' else str ''false'')"
| "json_key frepr (KInt i) = int_str i"
| "json_key frepr (KFloat f) =
     (case f of PosInf \<Rightarrow> str ''Infinity'' | NegInf \<Rightarrow> str ''-Infinity'' | _ \<Rightarrow> frepr f)"

definition dict_of_pairs :: "(pykey \<times> pyval) list \<Rightarrow> pydict" where
  "dict_of_pairs kvs = foldl (\<lambda>d kv. dict_set d (fst kv) (snd kv)) [] kvs"

fun json_reload :: "(pyfloat \<Rightarrow> pystr) \<Rightarrow> pyval \<Rightarrow> pyval" where
  "json_reload frepr (PList xs) = PList (map (json_reload frepr) xs)"
| "json_reload frepr (PDict kvs) =
     PDict (dict_of_pairs (map (\<lambda>(k, v). (KStr (json_key frepr k), json_reload frepr v)) kvs))"
| "json_reload frepr v = v"

text \<open>
  The state that the operations read and change: the backing file, the module-level
  \<open>version_mappings\<close> dict of \<open>SCHEMA_TEMPLATE\<close>, the file operations performed so far
  and what has been printed.
\<close>

datatype io = Exists | ReadFile | Mkdir | WriteFile pyval

record world =
  mapping_file :: fstate
  tmpl_vm :: pydict
  io_log :: "io list"
  printed :: "msg list"

definition did :: "io list \<Rightarrow> world \<Rightarrow> world" where
  "did ops w = w\<lparr>io_log := io_log w @ ops\<rparr>"

definition emit :: "msg \<Rightarrow> world \<Rightarrow> world" where
  "emit m w = w\<lparr>printed := printed w @ [m]\<rparr>"

text \<open>
  \<open>load_version_mapping()\<close>. The flag says that the result is \<open>dict(SCHEMA_TEMPLATE)\<close>,
  whose \<open>version_mappings\<close> is the template's own dict.
\<close>

definition load_version_mapping ::
  "(pyfloat \<Rightarrow> pystr) \<Rightarrow> world \<Rightarrow> (pydict \<times> bool) \<times> world" where
  "load_version_mapping frepr w =
     (case mapping_file w of
        Missing \<Rightarrow>
          ((SCHEMA_TEMPLATE (tmpl_vm w), True), emit FileMissingNotice (did [Exists] w))
      | Unreadable \<Rightarrow>
          ((SCHEMA_TEMPLATE (tmpl_vm w), True), emit LoadFailed (did [Exists, ReadFile] w))
      | Holds v \<Rightarrow>
          (case ensure_schema (SCHEMA_TEMPLATE (tmpl_vm w)) (json_reload frepr v) of
             Inl e \<Rightarrow>
               ((SCHEMA_TEMPLATE (tmpl_vm w), True),
                emit LoadFailed (did [Exists, ReadFile] w))
           | Inr data \<Rightarrow> ((data, False), did [Exists, ReadFile] w)))"

text \<open>
  What the file handle can encode. The file is opened with \<open>encoding="utf-8"\<close> and
  \<open>json.dump\<close> is called with \<open>ensure_ascii=False\<close>, so every string of the record, keys
  included, is written as it is, and a lone surrogate (a code point from D800 to DFFF, as
  \<open>json.load\<close> makes of an escape such as \<open>\ud800\<close> and as \<open>sys.argv\<close> holds for a byte
  that is not UTF-8) raises \<open>UnicodeEncodeError\<close> in \<open>handle.write\<close>.
\<close>

definition surrogate :: "nat \<Rightarrow> bool" where
  "surrogate c = (55296 \<le> c \<and> c \<le> 57343)"

definition str_ok :: "pystr \<Rightarrow> bool" where
  "str_ok s = list_all (\<lambda>c. \<not> surrogate c) s"

fun key_ok :: "pykey \<Rightarrow> bool" where
  "key_ok (KStr s) = str_ok s"
| "key_ok _ = True"

fun encodable :: "pyval \<Rightarrow> bool" where
  "encodable (PStr s) = str_ok s"
| "encodable (PList xs) = list_all encodable xs"
| "encodable (PDict kvs) = (list_all key_ok (map fst kvs) \<and> list_all encodable (map snd kvs))"
| "encodable v = True"

text \<open>
  \<open>_write_mapping(data)\<close>. From outside the program comes whether the file system lets
  the write through: \<open>WriteRefused\<close> is \<open>mkdir\<close> or \<open>open\<close> raising, which leaves the
  file as it was; \<open>WriteBroken\<close> is an I/O error after \<open>open(..., "w")\<close> has truncated
  the file. When the file system lets it through, the write succeeds if the record can be
  encoded, and otherwise \<open>json.dump\<close> raises \<open>UnicodeEncodeError\<close>, also after the
  truncation. A write that breaks off leaves a proper prefix of the document, which is
  never a JSON document.
\<close>

datatype write_outcome = WriteOk | WriteRefused | WriteBroken

definition write_mapping :: "write_outcome \<Rightarrow> pydict \<Rightarrow> world \<Rightarrow> (pyerror + unit) \<times> world" where
  "write_mapping wr data w =
     (case wr of
        WriteRefused \<Rightarrow> (Inl OSError, did [Mkdir] w)
      | WriteBroken \<Rightarrow> (Inl OSError, (did [Mkdir, WriteFile (PDict data)] w)\<lparr>mapping_file := Unreadable\<rparr>)
      | WriteOk \<Rightarrow>
          if encodable (PDict data)
          then (Inr (), (did [Mkdir, WriteFile (PDict data)] w)\<lparr>mapping_file := Holds (PDict data)\<rparr>)
          else (Inl UnicodeEncodeError,
                (did [Mkdir, WriteFile (PDict data)] w)\<lparr>mapping_file := Unreadable\<rparr>))"

section \<open>Sync recorder\<close>

fun history_without :: "pystr \<Rightarrow> pyval list \<Rightarrow> pyerror + pyval list" where
  \<comment> \<open>\<open>[sync for sync in history if sync.get("upstream_version") != upstream_version]\<close>\<close>
  "history_without u [] = Inr []"
| "history_without u (sync # rest) =
     (case sync of
        PDict d \<Rightarrow>
          (case history_without u rest of
             Inl e \<Rightarrow> Inl e
           | Inr kept \<Rightarrow>
               if get_or d (str ''upstream_version'') PNone \<noteq> PStr u
               then Inr (sync # kept) else Inr kept)
      | _ \<Rightarrow> Inl AttributeError)"

definition sync_entry :: "pystr \<Rightarrow> pystr \<Rightarrow> pystr \<Rightarrow> pystr \<Rightarrow> pydict" where
  "sync_entry now u n t =
     [(KStr (str ''timestamp''), PStr now),
      (KStr (str ''upstream_version''), PStr u),
      (KStr (str ''nad_version''), PStr n),
      (KStr (str ''trigger_type''), PStr (if t \<noteq> [] then t else str ''auto''))]"

text \<open>
  \<open>save_version_mapping(upstream_version, nad_version, trigger_type)\<close>, with the value
  of \<open>_now_iso()\<close> and the outcome of the write as further inputs.
\<close>

definition save_version_mapping ::
  "(pyfloat \<Rightarrow> pystr) \<Rightarrow> pystr \<Rightarrow> write_outcome \<Rightarrow> pystr \<Rightarrow> pystr \<Rightarrow> pystr \<Rightarrow> world
     \<Rightarrow> (pyerror + unit) \<times> world" where
  "save_version_mapping frepr now wr u n t w =
     (if u = [] then (Inl MissingUpstream, w)
      else if n = [] then (Inl MissingNad, w)
      else
        (case load_version_mapping frepr w of
           ((mapping_data, shared), w) \<Rightarrow>
             (case dict_get mapping_data (KStr (str ''version_mappings'')) of
                None \<Rightarrow> (Inl KeyError, w)
              | Some (PDict vm) \<Rightarrow>
                  (let vm = dict_set vm (KStr u) (PStr n);
                       mapping_data = dict_set mapping_data (KStr (str ''version_mappings'')) (PDict vm);
                       w = (if shared then w\<lparr>tmpl_vm := vm\<rparr> else w);
                       entry = sync_entry now u n t
                   in case py_iter (get_or mapping_data (str ''sync_history'') (PList [])) of
                        Inl e \<Rightarrow> (Inl e, w)
                      | Inr syncs \<Rightarrow>
                          (case history_without u syncs of
                             Inl e \<Rightarrow> (Inl e, w)
                           | Inr history \<Rightarrow>
                               (let history = history @ [PDict entry];
                                    mapping_data = dict_set mapping_data (KStr (str ''sync_history''))
                                                     (PList (last_n MAX_HISTORY history));
                                    mapping_data = dict_set mapping_data (KStr (str ''last_sync''))
                                                     (PDict entry)
                                in case write_mapping wr mapping_data w of
                                     (Inl e, w) \<Rightarrow> (Inl e, emit WriteFailed w)
                                   | (Inr _, w) \<Rightarrow>
                                       (Inr (),
                                        emit (MappingUpdated u n (if t \<noteq> [] then t else str ''auto'')) w))))
              | Some _ \<Rightarrow> (Inl TypeError, w))))"

section \<open>Listing\<close>

definition subscript :: "pyval \<Rightarrow> pystr \<Rightarrow> pyerror + pyval" where
  \<comment> \<open>\<open>x[name]\<close> for a string \<open>name\<close>: only a dict can be indexed by a string\<close>
  "subscript x name =
     (case x of
        PDict d \<Rightarrow> (case dict_get d (KStr name) of None \<Rightarrow> Inl KeyError | Some v \<Rightarrow> Inr v)
      | _ \<Rightarrow> Inl TypeError)"

definition history_line :: "nat \<Rightarrow> pyval \<Rightarrow> pyerror + msg" where
  "history_line idx entry =
     (case subscript entry (str ''timestamp'') of
        Inl e \<Rightarrow> Inl e
      | Inr ts \<Rightarrow>
          (case subscript entry (str ''upstream_version'') of
             Inl e \<Rightarrow> Inl e
           | Inr up \<Rightarrow>
               (case subscript entry (str ''nad_version'') of
                  Inl e \<Rightarrow> Inl e
                | Inr nad \<Rightarrow>
                    (case subscript entry (str ''trigger_type'') of
                       Inl e \<Rightarrow> Inl e
                     | Inr tr \<Rightarrow> Inr (HistoryLine idx ts up nad tr)))))"

fun history_lines :: "nat \<Rightarrow> pyval list \<Rightarrow> world \<Rightarrow> (pyerror + unit) \<times> world" where
  \<comment> \<open>the body of \<open>for idx, entry in enumerate(..., idx)\<close>\<close>
  "history_lines idx [] w = (Inr (), w)"
| "history_lines idx (entry # rest) w =
     (case history_line idx entry of
        Inl e \<Rightarrow> (Inl e, w)
      | Inr line \<Rightarrow> history_lines (Suc idx) rest (emit line w))"

text \<open>
  \<open>sorted(mappings.items())\<close>. The keys of a dict are distinct, so two items are ordered
  by their keys alone: strings by code points, numbers by value; comparing a string, a
  number and \<open>None\<close> with one another raises \<open>TypeError\<close>.
\<close>

fun str_less :: "pystr \<Rightarrow> pystr \<Rightarrow> bool" where
  "str_less [] [] = False"
| "str_less [] (d # ds) = True"
| "str_less (c # cs) [] = False"
| "str_less (c # cs) (d # ds) = (c < d \<or> (c = d \<and> str_less cs ds))"

fun num_less :: "keynum \<Rightarrow> keynum \<Rightarrow> bool" where
  "num_less (Num a) (Num b) = (a < b)"
| "num_less Minus_Inf Minus_Inf = False"
| "num_less Minus_Inf _ = True"
| "num_less _ Minus_Inf = False"
| "num_less Plus_Inf _ = False"
| "num_less _ Plus_Inf = True"

definition key_less :: "pykey \<Rightarrow> pykey \<Rightarrow> bool option" where
  "key_less a b =
     (case (a, b) of
        (KStr s, KStr t) \<Rightarrow> Some (str_less s t)
      | _ \<Rightarrow> (case (key_num a, key_num b) of
                 (Some x, Some y) \<Rightarrow> Some (num_less x y)
               | _ \<Rightarrow> None))"

fun insert_item :: "pykey \<times> pyval \<Rightarrow> pydict \<Rightarrow> pyerror + pydict" where
  "insert_item x [] = Inr [x]"
| "insert_item x (y # ys) =
     (case key_less (fst y) (fst x) of
        None \<Rightarrow> Inl TypeError
      | Some True \<Rightarrow> (case insert_item x ys of Inl e \<Rightarrow> Inl e | Inr r \<Rightarrow> Inr (y # r))
      | Some False \<Rightarrow> Inr (x # y # ys))"

fun sorted_items :: "pydict \<Rightarrow> pyerror + pydict" where
  "sorted_items [] = Inr []"
| "sorted_items (x # xs) =
     (case sorted_items xs of Inl e \<Rightarrow> Inl e | Inr r \<Rightarrow> insert_item x r)"

fun key_str :: "(pyfloat \<Rightarrow> pystr) \<Rightarrow> pykey \<Rightarrow> pystr" where
  \<comment> \<open>\<open>str(k)\<close>, as an f-string formats a key\<close>
  "key_str frepr (KStr s) = s"
| "key_str frepr KNone = str ''None''"
| "key_str frepr (KBool b) = (if b then str ''True'' else str ''False'')"
| "key_str frepr (KInt i) = int_str i"
| "key_str frepr (KFloat f) = frepr f"

definition mapping_line :: "(pyfloat \<Rightarrow> pystr) \<Rightarrow> pykey \<times> pyval \<Rightarrow> msg" where
  "mapping_line frepr item =
     (case item of
        (upstream, nad) \<Rightarrow>
          MappingLine (PStr (key_str frepr upstream @ str ''-no-aja'') = nad) upstream nad)"

definition list_mappings :: "(pyfloat \<Rightarrow> pystr) \<Rightarrow> world \<Rightarrow> (pyerror + unit) \<times> world" where
  "list_mappings frepr w =
     (case load_version_mapping frepr w of
        ((mapping_data, shared), w) \<Rightarrow>
          (let history = get_or mapping_data (str ''sync_history'') (PList []);
               mappings = get_or mapping_data (str ''version_mappings'') (PDict [])
           in if \<not> py_truthy history \<and> \<not> py_truthy mappings then (Inr (), emit NoData w)
              else
                (case (if py_truthy history
                       then (case history of
                               PList h \<Rightarrow> history_lines 1 (rev h) (emit HistoryHeader w)
                             | _ \<Rightarrow> (Inl TypeError, emit HistoryHeader w))
                       else (Inr (), w)) of
                   (Inl e, w) \<Rightarrow> (Inl e, w)
                 | (Inr _, w) \<Rightarrow>
                     if py_truthy mappings
                     then (case mappings of
                             PDict m \<Rightarrow>
                               (case sorted_items m of
                                  Inl e \<Rightarrow> (Inl e, emit MappingHeader w)
                                | Inr items \<Rightarrow>
                                    (Inr (),
                                     (emit MappingHeader w)
                                       \<lparr>printed := printed (emit MappingHeader w)
                                                     @ map (mapping_line frepr) items\<rparr>))
                           | _ \<Rightarrow> (Inl AttributeError, emit MappingHeader w))
                     else (Inr (), w))))"

section \<open>Command line\<close>

text \<open>
  What \<open>parser.parse_args(argv)\<close> does: it leaves the process through \<open>SystemExit\<close>
  with a status, after printing help or an error, or it returns a namespace, of which
  \<open>main\<close> reads the command and, for \<open>save-mapping\<close>, the three arguments.
\<close>

datatype command = NoCommand | GetUpstream | SaveMapping pystr pystr pystr | ListMappings

datatype parsed = SystemExit int "msg list" | Namespace command

text \<open>
  What one run of the script takes from outside: how floats are written, the clock, the
  outcome of the write and the outcome of \<open>curl\<close>.
\<close>

record env =
  float_repr :: "pyfloat \<Rightarrow> pystr"
  clock :: pystr
  write_result :: write_outcome
  curl :: curl_outcome

text \<open>
  The part of \<open>main\<close> after \<open>parse_args\<close>. The result is the exit status of the
  process: what \<open>main\<close> returns, or 1 after an exception that nothing catches, as the one
  \<open>list_mappings\<close> may raise.
\<close>

definition run_command :: "env \<Rightarrow> command \<Rightarrow> world \<Rightarrow> int \<times> world" where
  "run_command e cmd w =
     (case cmd of
        GetUpstream \<Rightarrow>
          (case get_upstream_version (curl e) of
             (None, msgs) \<Rightarrow> (1, w\<lparr>printed := printed w @ msgs\<rparr>)
           | (Some version, msgs) \<Rightarrow>
               (0, w\<lparr>printed := printed w @ msgs @ [UpstreamVersion version]\<rparr>))
      | SaveMapping u n t \<Rightarrow>
          (case save_version_mapping (float_repr e) (clock e) (write_result e) u n t w of
             (Inl exc, w) \<Rightarrow> (1, emit (SaveFailed exc) w)
           | (Inr _, w) \<Rightarrow> (0, w))
      | ListMappings \<Rightarrow>
          (case list_mappings (float_repr e) w of
             (Inl exc, w) \<Rightarrow> (1, emit (Traceback exc) w)
           | (Inr _, w) \<Rightarrow> (0, w))
      | NoCommand \<Rightarrow> (0, emit Usage w))"

text \<open>
  \<open>main(argv)\<close>, with \<open>parse_args\<close> of the parser of \<open>build_parser\<close> as a parameter:
  \<open>argparse\<close> is a library, and what it does with options, abbreviations and \<open>--\<close>
  differs between Python versions.
\<close>

definition main :: "(pystr list \<Rightarrow> parsed) \<Rightarrow> env \<Rightarrow> pystr list \<Rightarrow> world \<Rightarrow> int \<times> world" where
  "main parse_args e argv w =
     (if argv = [] then (0, emit Usage w)
      else
        (case parse_args argv of
           SystemExit status msgs \<Rightarrow> (status, w\<lparr>printed := printed w @ msgs\<rparr>)
         | Namespace cmd \<Rightarrow> run_command e cmd w))"

text \<open>
  What is used of \<open>argparse\<close>, for the parser of \<open>build_parser\<close>: the three subcommands
  are the choices of the positional argument \<open>command\<close>; a first argument that is a
  positional (it does not begin with \<open>-\<close>) and not one of the choices is an error, printed
  on standard error, with exit status 2; \<open>get-upstream\<close> and \<open>list\<close> alone are
  accepted; \<open>save-mapping\<close> with two positionals is accepted, with \<open>manual\<close> for
  \<open>--trigger-type\<close>.
\<close>

definition subcommands :: "pystr list" where
  "subcommands = [str ''get-upstream'', str ''save-mapping'', str ''list'']"

definition is_option :: "pystr \<Rightarrow> bool" where
  "is_option s = starts_with (str ''-'') s"

definition argparse_contract :: "(pystr list \<Rightarrow> parsed) \<Rightarrow> bool" where
  "argparse_contract parse_args \<longleftrightarrow>
     (\<forall>s rest. \<not> is_option s \<and> s \<notin> set subcommands \<longrightarrow>
        parse_args (s # rest) = SystemExit 2 [ArgparseError])
     \<and> parse_args [str ''get-upstream''] = Namespace GetUpstream
     \<and> parse_args [str ''list''] = Namespace ListMappings
     \<and> (\<forall>u n. \<not> is_option u \<and> \<not> is_option n \<longrightarrow>
          parse_args [str ''save-mapping'', u, n] = Namespace (SaveMapping u n (str ''manual'')))"

text \<open>
  A function that meets the contract, for the examples. On the command lines of which the
  contract says nothing it is not \<open>argparse\<close>.
\<close>

definition example_parser :: "pystr list \<Rightarrow> parsed" where
  "example_parser argv =
     (case argv of
        [] \<Rightarrow> Namespace NoCommand
      | s # rest \<Rightarrow>
          if s = str ''get-upstream'' \<and> rest = [] then Namespace GetUpstream
          else if s = str ''list'' \<and> rest = [] then Namespace ListMappings
          else if s = str ''save-mapping'' \<and> length rest = 2
                  \<and> \<not> is_option (rest ! 0) \<and> \<not> is_option (rest ! 1)
          then Namespace (SaveMapping (rest ! 0) (rest ! 1) (str ''manual''))
          else if s = str ''-h'' \<or> s = str ''--help'' then SystemExit 0 [Usage]
          else SystemExit 2 [ArgparseError])"

text \<open>The surroundings of a run, for the examples.\<close>

definition env0 :: env where
  "env0 = \<lparr>float_repr = (\<lambda>f. str ''0.0''), clock = str ''2025-01-01T00:00:00Z'',
            write_result = WriteOk, curl = OtherException\<rparr>"

text \<open>A file whose one history entry lacks \<open>timestamp\<close> and \<open>trigger_type\<close>.\<close>

definition partial_entry :: pyval where
  "partial_entry = PDict
     [(KStr (str ''sync_history''),
         PList [PDict [(KStr (str ''upstream_version''), PStr (str ''32.0.0'')),
                       (KStr (str ''nad_version''), PStr (str ''32.0.0-no-aja''))]])]"

section \<open>Records and runs\<close>

text \<open>
  The shape of every record the store handles: the four fields of \<open>SCHEMA_TEMPLATE\<close>
  in its order.
\<close>

definition mk_record :: "pyval \<Rightarrow> pydict \<Rightarrow> pyval list \<Rightarrow> pydict \<Rightarrow> pydict" where
  "mk_record description mappings history last_sync =
     [(KStr (str ''description''), description),
      (KStr (str ''version_mappings''), PDict mappings),
      (KStr (str ''sync_history''), PList history),
      (KStr (str ''last_sync''), PDict last_sync)]"

definition norm_history :: "pyval \<Rightarrow> pyval list" where
  \<comment> \<open>the \<open>sync_history\<close> that \<open>_ensure_schema\<close> makes of a raw value\<close>
  "norm_history h = (case h of PList xs \<Rightarrow> last_n MAX_HISTORY xs | _ \<Rightarrow> [])"

definition norm_last_sync :: "pyval \<Rightarrow> pydict" where
  \<comment> \<open>the \<open>last_sync\<close> that \<open>_ensure_schema\<close> makes of a raw value\<close>
  "norm_last_sync l = (case l of PDict d \<Rightarrow> rebuild_last_sync d | _ \<Rightarrow> placeholder)"

definition history_of :: "pydict \<Rightarrow> pyval list" where
  \<comment> \<open>the \<open>sync_history\<close> of a record\<close>
  "history_of d = (case get_or d (str ''sync_history'') (PList []) of PList h \<Rightarrow> h | _ \<Rightarrow> [])"

definition mappings_of :: "pydict \<Rightarrow> pydict" where
  \<comment> \<open>the \<open>version_mappings\<close> of a record\<close>
  "mappings_of d = (case get_or d (str ''version_mappings'') (PDict []) of PDict m \<Rightarrow> m | _ \<Rightarrow> [])"

definition last_sync_of :: "pydict \<Rightarrow> pyval" where
  \<comment> \<open>the \<open>last_sync\<close> of a record\<close>
  "last_sync_of d = get_or d (str ''last_sync'') PNone"

definition reload_dict :: "(pyfloat \<Rightarrow> pystr) \<Rightarrow> pydict \<Rightarrow> pydict" where
  \<comment> \<open>what \<open>json_reload\<close> makes of the entries of an object\<close>
  "reload_dict frepr kvs =
     dict_of_pairs (map (\<lambda>(k, v). (KStr (json_key frepr k), json_reload frepr v)) kvs)"

text \<open>
  A file with a description, a history entry, and a number where \<open>version_mappings\<close>
  should be an object.
\<close>

definition legacy :: pyval where
  "legacy = PDict
     [(KStr (str ''description''), PStr (str ''my mappings'')),
      (KStr (str ''version_mappings''), PInt 5),
      (KStr (str ''sync_history''),
         PList [PDict (sync_entry (str ''2025-01-01T00:00:00Z'') (str ''32.0.0'')
                         (str ''32.0.0-no-aja'') (str ''manual''))])]"

fun is_dict :: "pyval \<Rightarrow> bool" where
  "is_dict (PDict d) = True"
| "is_dict _ = False"

definition top_keys :: "pykey list" where
  "top_keys = [KStr (str ''description''), KStr (str ''version_mappings''),
               KStr (str ''sync_history''), KStr (str ''last_sync'')]"

definition loaded :: "(pyfloat \<Rightarrow> pystr) \<Rightarrow> world \<Rightarrow> pydict" where
  \<comment> \<open>the record that \<open>load_version_mapping()\<close> returns in a state\<close>
  "loaded frepr w = fst (fst (load_version_mapping frepr w))"

text \<open>
  A value as \<open>json.load\<close> returns it: every key of every object is a string, and no
  object has a key twice.
\<close>

fun is_str_key :: "pykey \<Rightarrow> bool" where
  "is_str_key (KStr s) = True"
| "is_str_key _ = False"

fun json_clean :: "pyval \<Rightarrow> bool" where
  "json_clean (PList xs) = list_all json_clean xs"
| "json_clean (PDict kvs) =
     (distinct (map fst kvs) \<and> list_all is_str_key (map fst kvs)
      \<and> list_all json_clean (map snd kvs))"
| "json_clean v = True"

text \<open>The event that a call of \<open>save_version_mapping\<close> appends, as a test on a history entry.\<close>

definition is_for :: "pystr \<Rightarrow> pyval \<Rightarrow> bool" where
  \<comment> \<open>an entry whose \<open>upstream_version\<close> is \<open>u\<close>\<close>
  "is_for u sync =
     (case sync of PDict d \<Rightarrow> get_or d (str ''upstream_version'') PNone = PStr u | _ \<Rightarrow> False)"

definition recorded :: "(pyfloat \<Rightarrow> pystr) \<Rightarrow> pystr \<Rightarrow> pystr \<Rightarrow> pystr \<Rightarrow> pystr \<Rightarrow> world \<Rightarrow> pydict" where
  \<comment> \<open>the record that a call of \<open>save_version_mapping\<close> hands to \<open>_write_mapping\<close>\<close>
  "recorded frepr now u n t w =
     mk_record (get_or (loaded frepr w) (str ''description'') PNone)
       (dict_set (mappings_of (loaded frepr w)) (KStr u) (PStr n))
       (last_n MAX_HISTORY
          (filter (\<lambda>s. \<not> is_for u s) (history_of (loaded frepr w))
           @ [PDict (sync_entry now u n t)]))
       (sync_entry now u n t)"

text \<open>A sequence of calls of \<open>save_version_mapping\<close> in one process.\<close>

datatype call = Call (c_now: pystr) (c_write: write_outcome) (c_upstream: pystr) (c_nad: pystr)
  (c_trigger: pystr)

definition record_call :: "(pyfloat \<Rightarrow> pystr) \<Rightarrow> call \<Rightarrow> world \<Rightarrow> (pyerror + unit) \<times> world" where
  "record_call frepr c w =
     save_version_mapping frepr (c_now c) (c_write c) (c_upstream c) (c_nad c) (c_trigger c) w"

definition event :: "call \<Rightarrow> pyval" where
  "event c = PDict (sync_entry (c_now c) (c_upstream c) (c_nad c) (c_trigger c))"

fun record_all :: "(pyfloat \<Rightarrow> pystr) \<Rightarrow> call list \<Rightarrow> world \<Rightarrow> (pyerror + unit) list \<times> world" where
  "record_all frepr [] w = ([], w)"
| "record_all frepr (c # cs) w =
     (case record_call frepr c w of
        (r, w) \<Rightarrow> (case record_all frepr cs w of (rs, w) \<Rightarrow> (r # rs, w)))"





definition fresh :: world where
  \<comment> \<open>before first use: no backing file, nothing done\<close>
  "fresh = \<lparr>mapping_file = Missing, tmpl_vm = [], io_log = [], printed = []\<rparr>"

text \<open>
  A well-formed record: the four fields in the order of \<open>SCHEMA_TEMPLATE\<close>, an object
  for \<open>version_mappings\<close>, a list of at most \<open>MAX_HISTORY\<close> entries for \<open>sync_history\<close>,
  an object with exactly the four fields of an event for \<open>last_sync\<close>, as in every
  value read from JSON only strings as keys, and, as in every record that
  \<open>_write_mapping\<close> has written, no string that cannot be encoded.
\<close>

definition entry_keys :: "pykey list" where
  "entry_keys = map fst placeholder"

definition well_formed :: "pydict \<Rightarrow> bool" where
  "well_formed d =
     (map fst d = top_keys \<and> json_clean (PDict d) \<and> encodable (PDict d)
      \<and> is_dict (get_or d (str ''version_mappings'') PNone)
      \<and> (case get_or d (str ''sync_history'') PNone of
            PList h \<Rightarrow> length h \<le> MAX_HISTORY | _ \<Rightarrow> False)
      \<and> (case get_or d (str ''last_sync'') PNone of
            PDict l \<Rightarrow> map fst l = entry_keys | _ \<Rightarrow> False))"

text \<open>Twenty-one calls for the upstream versions 30.0.0 to 30.0.20, each with a write that succeeds.\<close>

definition calls21 :: "call list" where
  "calls21 =
     map (\<lambda>v. Call (str ''2025-01-01T00:00:00Z'') WriteOk (str v) (str v @ str ''-no-aja'')
                (str ''auto''))
       [''30.0.0'', ''30.0.1'', ''30.0.2'', ''30.0.3'', ''30.0.4'', ''30.0.5'',
        ''30.0.6'', ''30.0.7'', ''30.0.8'', ''30.0.9'', ''30.0.10'', ''30.0.11'',
        ''30.0.12'', ''30.0.13'', ''30.0.14'', ''30.0.15'', ''30.0.16'', ''30.0.17'',
        ''30.0.18'', ''30.0.19'', ''30.0.20'']"

text \<open>
  A call whose arguments are not empty and can be encoded, with a file system that lets
  the write through; a state whose loaded record such calls can extend and write.
\<close>

definition ok_call :: "call \<Rightarrow> bool" where
  "ok_call c =
     (c_upstream c \<noteq> [] \<and> c_nad c \<noteq> [] \<and> c_write c = WriteOk
      \<and> str_ok (c_now c) \<and> str_ok (c_upstream c) \<and> str_ok (c_nad c) \<and> str_ok (c_trigger c))"

definition sound_store :: "(pyfloat \<Rightarrow> pystr) \<Rightarrow> world \<Rightarrow> bool" where
  "sound_store frepr w =
     (list_all is_dict (history_of (loaded frepr w))
      \<and> json_clean (PDict (mappings_of (loaded frepr w)))
      \<and> encodable (PDict (loaded frepr w)))"






section \<open>Elementary facts\<close>

lemma str_eq_iff [simp]: "str s = str t \<longleftrightarrow> s = t"
  unfolding str_def by (rule inj_map_eq_map) (simp add: inj_on_def)

lemma str_Nil [simp]: "str [] = []"
  by (simp add: str_def)

lemma str_eq_Nil [simp]: "str s = [] \<longleftrightarrow> s = []"
  by (simp add: str_def)

lemma key_eq_KStr [simp]: "key_eq k (KStr s) \<longleftrightarrow> k = KStr s"
  by (cases k) auto

lemma key_eq_KStr_left [simp]: "key_eq (KStr s) k \<longleftrightarrow> k = KStr s"
  by (cases k) auto

section \<open>The shape of a record\<close>

lemma template_record: "SCHEMA_TEMPLATE vm = mk_record (PStr default_description) vm [] placeholder"
  by (simp add: SCHEMA_TEMPLATE_def mk_record_def)

lemma set_description: "dict_set (mk_record D M H L) (KStr (str ''description'')) D' = mk_record D' M H L"
  by (simp add: mk_record_def)

lemma set_mappings: "dict_set (mk_record D M H L) (KStr (str ''version_mappings'')) (PDict M') = mk_record D M' H L"
  by (simp add: mk_record_def)

lemma set_history: "dict_set (mk_record D M H L) (KStr (str ''sync_history'')) (PList H') = mk_record D M H' L"
  by (simp add: mk_record_def)

lemma set_last_sync: "dict_set (mk_record D M H L) (KStr (str ''last_sync'')) (PDict L') = mk_record D M H L'"
  by (simp add: mk_record_def)

lemma get_record:
  "dict_get (mk_record D M H L) (KStr (str ''description'')) = Some D"
  "dict_get (mk_record D M H L) (KStr (str ''version_mappings'')) = Some (PDict M)"
  "dict_get (mk_record D M H L) (KStr (str ''sync_history'')) = Some (PList H)"
  "dict_get (mk_record D M H L) (KStr (str ''last_sync'')) = Some (PDict L)"
  by (simp_all add: mk_record_def)

lemma get_or_record:
  "get_or (mk_record D M H L) (str ''description'') x = D"
  "get_or (mk_record D M H L) (str ''version_mappings'') x = PDict M"
  "get_or (mk_record D M H L) (str ''sync_history'') x = PList H"
  "get_or (mk_record D M H L) (str ''last_sync'') x = PDict L"
  by (simp_all add: get_or_def get_record)

lemma keys_record: "map fst (mk_record D M H L) = top_keys"
  by (simp add: mk_record_def top_keys_def)

lemma ensure_schema_dict:
  "ensure_schema (SCHEMA_TEMPLATE vm0) (PDict r) =
     (case py_dict (get_or r (str ''version_mappings'') (PDict [])) of
        Inl e \<Rightarrow> Inl e
      | Inr m \<Rightarrow>
          Inr (mk_record (get_or r (str ''description'') (PStr default_description)) m
                 (norm_history (get_or r (str ''sync_history'') (PList [])))
                 (norm_last_sync (get_or r (str ''last_sync'') (PDict [])))))"
  by (simp add: ensure_schema_def template_record set_description set_mappings set_history
      set_last_sync norm_history_def norm_last_sync_def get_or_def
      split: option.splits sum.splits pyval.splits)

lemma ensure_schema_not_dict:
  "(\<And>r. raw \<noteq> PDict r) \<Longrightarrow> \<exists>e. ensure_schema t raw = Inl e"
  by (cases raw) (auto simp: ensure_schema_def)

lemma ensure_schema_shape:
  "ensure_schema (SCHEMA_TEMPLATE vm0) raw = Inr data \<Longrightarrow> \<exists>D M H L. data = mk_record D M H L"
proof (cases raw)
  case (PDict r)
  assume "ensure_schema (SCHEMA_TEMPLATE vm0) raw = Inr data"
  with PDict show ?thesis
    by (auto simp: ensure_schema_dict split: sum.splits)
qed (auto simp: ensure_schema_def split: if_splits)

lemma loaded_shape: "\<exists>D M H L. loaded frepr w = mk_record D M H L"
  by (auto simp: loaded_def load_version_mapping_def template_record
      dest: ensure_schema_shape [unfolded template_record] split: fstate.splits sum.splits)

section \<open>The upstream tag\<close>







section \<open>Validation of the arguments\<close>

text \<open>
  C7. When \<open>upstream_version\<close> or \<open>nad_version\<close> is empty, \<open>save_version_mapping\<close> raises
  the \<open>ValueError\<close> of the first empty argument and nothing else happens: no file
  operation is performed, nothing is printed, and the backing file is as it was.
\<close>

theorem save_version_mapping_rejects_empty:
  assumes "u = [] \<or> n = []"
  shows "fst (save_version_mapping frepr now wr u n t w) =
           Inl (if u = [] then MissingUpstream else MissingNad)
         \<and> snd (save_version_mapping frepr now wr u n t w) = w
         \<and> io_log (snd (save_version_mapping frepr now wr u n t w)) = io_log w
         \<and> mapping_file (snd (save_version_mapping frepr now wr u n t w)) = mapping_file w"
  using assms by (auto simp: save_version_mapping_def)

theorem save_version_mapping_rejects_empty_witness:
  "(([]::pystr) = [] \<or> str ''x'' = [])
   \<and> fst (save_version_mapping (\<lambda>f. []) (str ''2025-01-01T00:00:00Z'') WriteOk [] (str ''x'')
            (str ''manual'') \<lparr>mapping_file = Missing, tmpl_vm = [], io_log = [], printed = []\<rparr>)
       = Inl MissingUpstream
   \<and> fst (save_version_mapping (\<lambda>f. []) (str ''2025-01-01T00:00:00Z'') WriteOk (str ''x'') []
            (str ''manual'') \<lparr>mapping_file = Missing, tmpl_vm = [], io_log = [], printed = []\<rparr>)
       = Inl MissingNad
   \<and> mapping_file (snd (save_version_mapping (\<lambda>f. []) (str ''2025-01-01T00:00:00Z'') WriteOk
            (str ''x'') [] (str ''manual'')
            \<lparr>mapping_file = Missing, tmpl_vm = [], io_log = [], printed = []\<rparr>)) = Missing"
  using save_version_mapping_rejects_empty
      [of "[]" "str ''x''" "\<lambda>f. []" "str ''2025-01-01T00:00:00Z''" WriteOk "str ''manual''"
          "\<lparr>mapping_file = Missing, tmpl_vm = [], io_log = [], printed = []\<rparr>"]
    save_version_mapping_rejects_empty
      [of "str ''x''" "[]" "\<lambda>f. []" "str ''2025-01-01T00:00:00Z''" WriteOk "str ''manual''"
          "\<lparr>mapping_file = Missing, tmpl_vm = [], io_log = [], printed = []\<rparr>"]
  by simp

section \<open>JSON documents\<close>

lemma json_reload_PDict: "json_reload frepr (PDict kvs) = PDict (reload_dict frepr kvs)"
  by (simp add: reload_dict_def)

lemma dict_set_fresh:
  "KStr s \<notin> fst ` set d \<Longrightarrow> dict_set d (KStr s) v = d @ [(KStr s, v)]"
  by (induction d) auto

lemma dict_of_pairs_distinct:
  "distinct (map fst kvs) \<Longrightarrow> list_all is_str_key (map fst kvs) \<Longrightarrow>
   fst ` set kvs \<inter> fst ` set acc = {} \<Longrightarrow>
   foldl (\<lambda>d kv. dict_set d (fst kv) (snd kv)) acc kvs = acc @ kvs"
proof (induction kvs arbitrary: acc)
  case Nil
  then show ?case by simp
next
  case (Cons kv kvs)
  obtain s v where kv: "kv = (KStr s, v)"
    using Cons.prems(2) by (cases kv; cases "fst kv") auto
  have fresh: "KStr s \<notin> fst ` set acc"
    using Cons.prems(3) kv by auto
  have "foldl (\<lambda>d kv. dict_set d (fst kv) (snd kv)) (acc @ [kv]) kvs = (acc @ [kv]) @ kvs"
    using Cons.prems kv by (intro Cons.IH) auto
  then show ?case
    using fresh kv by (simp add: dict_set_fresh)
qed

lemma dict_of_pairs_clean:
  "distinct (map fst kvs) \<Longrightarrow> list_all is_str_key (map fst kvs) \<Longrightarrow> dict_of_pairs kvs = kvs"
  using dict_of_pairs_distinct [of kvs "[]"] by (simp add: dict_of_pairs_def)

lemma json_key_str: "is_str_key k \<Longrightarrow> KStr (json_key frepr k) = k"
  by (cases k) auto

lemma json_reload_clean: "json_clean v \<Longrightarrow> json_reload frepr v = v"
proof (induction frepr v rule: json_reload.induct)
  case (1 frepr xs)
  then show ?case by (simp add: list_all_iff map_idI)
next
  case (2 frepr kvs)
  have "map (\<lambda>(k, v). (KStr (json_key frepr k), json_reload frepr v)) kvs = kvs"
  proof (rule map_idI)
    fix kv assume in_kvs: "kv \<in> set kvs"
    obtain k v where kv: "kv = (k, v)" by (cases kv)
    have "is_str_key k" "json_clean v"
      using "2.prems" in_kvs kv by (auto simp: list_all_iff)
    then show "(case kv of (k, v) \<Rightarrow> (KStr (json_key frepr k), json_reload frepr v)) = kv"
      using "2.IH" [OF in_kvs] kv by (simp add: json_key_str)
  qed
  then show ?case
    using "2.prems" by (simp add: dict_of_pairs_clean)
qed simp_all


lemma dict_set_keys:
  "map fst (dict_set d (KStr s) v) =
     (if KStr s \<in> fst ` set d then map fst d else map fst d @ [KStr s])"
  by (induction d) (force split: if_splits)+

lemma dict_set_values: "set (map snd (dict_set d k v)) \<subseteq> insert v (set (map snd d))"
  by (induction d) (fastforce split: if_splits)+

lemma dict_set_invariant:
  assumes "distinct (map fst d)" "list_all is_str_key (map fst d)" "list_all P (map snd d)" "P v"
  shows "distinct (map fst (dict_set d (KStr s) v))
       \<and> list_all is_str_key (map fst (dict_set d (KStr s) v))
       \<and> list_all P (map snd (dict_set d (KStr s) v))"
proof -
  have "list_all P (map snd (dict_set d (KStr s) v))"
    using dict_set_values [of d "KStr s" v] assms(3,4) unfolding list_all_iff by blast
  with assms(1,2) show ?thesis
    by (auto simp: dict_set_keys)
qed

lemma dict_of_pairs_invariant:
  "distinct (map fst acc) \<Longrightarrow> list_all is_str_key (map fst acc) \<Longrightarrow> list_all P (map snd acc) \<Longrightarrow>
   list_all is_str_key (map fst kvs) \<Longrightarrow> list_all P (map snd kvs) \<Longrightarrow>
   distinct (map fst (foldl (\<lambda>d kv. dict_set d (fst kv) (snd kv)) acc kvs))
   \<and> list_all is_str_key (map fst (foldl (\<lambda>d kv. dict_set d (fst kv) (snd kv)) acc kvs))
   \<and> list_all P (map snd (foldl (\<lambda>d kv. dict_set d (fst kv) (snd kv)) acc kvs))"
proof (induction kvs arbitrary: acc)
  case Nil
  then show ?case by simp
next
  case (Cons kv kvs)
  obtain s v where kv: "kv = (KStr s, v)"
    using Cons.prems(4) by (cases kv; cases "fst kv") auto
  have "P v" using Cons.prems(5) kv by simp
  from dict_set_invariant [OF Cons.prems(1,2,3) this, of s]
  have inv: "distinct (map fst (dict_set acc (KStr s) v))"
    "list_all is_str_key (map fst (dict_set acc (KStr s) v))"
    "list_all P (map snd (dict_set acc (KStr s) v))"
    by simp_all
  have rest: "list_all is_str_key (map fst kvs)" "list_all P (map snd kvs)"
    using Cons.prems(4,5) by simp_all
  from Cons.IH [OF inv rest] show ?case
    by (simp add: kv)
qed

lemma reload_dict_clean:
  assumes "\<And>kv. kv \<in> set kvs \<Longrightarrow> json_clean (json_reload frepr (snd kv))"
  shows "json_clean (PDict (reload_dict frepr kvs))"
proof -
  let ?ps = "map (\<lambda>(k, v). (KStr (json_key frepr k), json_reload frepr v)) kvs"
  have k: "list_all is_str_key (map fst ?ps)"
    by (auto simp: list_all_iff)
  have v: "list_all json_clean (map snd ?ps)"
    using assms by (auto simp: list_all_iff)
  from dict_of_pairs_invariant [of "[]" json_clean ?ps, OF _ _ _ k v]
  show ?thesis
    by (simp add: reload_dict_def dict_of_pairs_def)
qed

lemma json_clean_reload: "json_clean (json_reload frepr v)"
proof (induction frepr v rule: json_reload.induct)
  case (1 frepr xs)
  then show ?case by (simp add: list_all_iff)
next
  case (2 frepr kvs)
  have "json_clean (PDict (reload_dict frepr kvs))"
  proof (rule reload_dict_clean)
    fix kv assume "kv \<in> set kvs"
    with "2.IH" [of kv "fst kv" "snd kv"] show "json_clean (json_reload frepr (snd kv))"
      by simp
  qed
  then show ?case by (simp only: json_reload_PDict)
qed simp_all

lemma reload_idem: "json_reload frepr (json_reload frepr v) = json_reload frepr v"
  by (simp add: json_reload_clean json_clean_reload)

section \<open>Loading and saving\<close>

lemma load_world:
  "mapping_file (snd (load_version_mapping frepr w)) = mapping_file w"
  "tmpl_vm (snd (load_version_mapping frepr w)) = tmpl_vm w"
  by (simp_all add: load_version_mapping_def did_def emit_def split: fstate.splits sum.splits)

lemma load_shared:
  "snd (fst (load_version_mapping frepr w)) \<Longrightarrow>
   fst (fst (load_version_mapping frepr w)) = SCHEMA_TEMPLATE (tmpl_vm w)"
  by (auto simp: load_version_mapping_def split: fstate.splits sum.splits)

lemma save_version_mapping_eq:
  assumes "u \<noteq> []" "n \<noteq> []"
    and "load_version_mapping frepr w = ((mk_record D M H L, shared), w1)"
  shows "save_version_mapping frepr now wr u n t w =
     (case history_without u H of
        Inl e \<Rightarrow> (Inl e, if shared then w1\<lparr>tmpl_vm := dict_set M (KStr u) (PStr n)\<rparr> else w1)
      | Inr K \<Rightarrow>
          (case write_mapping wr
                  (mk_record D (dict_set M (KStr u) (PStr n))
                     (last_n MAX_HISTORY (K @ [PDict (sync_entry now u n t)]))
                     (sync_entry now u n t))
                  (if shared then w1\<lparr>tmpl_vm := dict_set M (KStr u) (PStr n)\<rparr> else w1) of
             (Inl e, w3) \<Rightarrow> (Inl e, emit WriteFailed w3)
           | (Inr _, w3) \<Rightarrow>
               (Inr (), emit (MappingUpdated u n (if t \<noteq> [] then t else str ''auto'')) w3)))"
  using assms
  by (simp add: save_version_mapping_def get_record set_mappings set_history set_last_sync
      get_or_record Let_def split: sum.splits prod.splits)

lemma history_without_Inr:
  "history_without u H = Inr K \<Longrightarrow> K = filter (\<lambda>s. \<not> is_for u s) H \<and> (\<forall>s\<in>set H. \<exists>d. s = PDict d)"
  by (induction H arbitrary: K) (auto simp: is_for_def split: pyval.splits sum.splits if_splits)

lemma history_without_dicts:
  "\<forall>s\<in>set H. \<exists>d. s = PDict d \<Longrightarrow> history_without u H = Inr (filter (\<lambda>s. \<not> is_for u s) H)"
  by (induction H) (auto simp: is_for_def split: pyval.splits sum.splits if_splits)

lemma accessors_record:
  "history_of (mk_record D M H L) = H"
  "mappings_of (mk_record D M H L) = M"
  "last_sync_of (mk_record D M H L) = PDict L"
  by (simp_all add: history_of_def mappings_of_def last_sync_of_def get_or_record)

lemma history_without_eq:
  "history_without u H =
     (if list_all is_dict H then Inr (filter (\<lambda>s. \<not> is_for u s) H) else Inl AttributeError)"
  by (induction H) (auto simp: is_for_def split: pyval.splits sum.splits)

lemma load_surj:
  obtains D M H L shared w1 where
    "load_version_mapping frepr w = ((mk_record D M H L, shared), w1)"
    "loaded frepr w = mk_record D M H L"
    "mapping_file w1 = mapping_file w"
proof -
  obtain D M H L where l: "loaded frepr w = mk_record D M H L"
    using loaded_shape by blast
  obtain shared w1 where "load_version_mapping frepr w = ((loaded frepr w, shared), w1)"
    unfolding loaded_def by (metis prod.collapse)
  moreover from this have "mapping_file w1 = mapping_file w"
    using load_world(1) [of frepr w] by simp
  ultimately show ?thesis
    using l that by simp
qed

lemma save_outcome:
  assumes "u \<noteq> []" "n \<noteq> []"
  shows "fst (save_version_mapping frepr now wr u n t w) =
           (if list_all is_dict (history_of (loaded frepr w))
            then (case wr of
                    WriteOk \<Rightarrow> if encodable (PDict (recorded frepr now u n t w)) then Inr ()
                               else Inl UnicodeEncodeError
                  | _ \<Rightarrow> Inl OSError)
            else Inl AttributeError)"
    and "mapping_file (snd (save_version_mapping frepr now wr u n t w)) =
           (if list_all is_dict (history_of (loaded frepr w))
            then (case wr of
                    WriteOk \<Rightarrow> if encodable (PDict (recorded frepr now u n t w))
                               then Holds (PDict (recorded frepr now u n t w)) else Unreadable
                  | WriteRefused \<Rightarrow> mapping_file w
                  | WriteBroken \<Rightarrow> Unreadable)
            else mapping_file w)"
proof -
  obtain D M H L shared w1 where
    l: "load_version_mapping frepr w = ((mk_record D M H L, shared), w1)"
    and d: "loaded frepr w = mk_record D M H L"
    and f: "mapping_file w1 = mapping_file w"
    by (rule load_surj)
  note eq = save_version_mapping_eq [OF assms l, of now wr t]
  show "fst (save_version_mapping frepr now wr u n t w) =
           (if list_all is_dict (history_of (loaded frepr w))
            then (case wr of
                    WriteOk \<Rightarrow> if encodable (PDict (recorded frepr now u n t w)) then Inr ()
                               else Inl UnicodeEncodeError
                  | _ \<Rightarrow> Inl OSError)
            else Inl AttributeError)"
    unfolding eq recorded_def d
    by (simp add: accessors_record get_or_record history_without_eq write_mapping_def
        del: encodable.simps split: write_outcome.splits)
  show "mapping_file (snd (save_version_mapping frepr now wr u n t w)) =
           (if list_all is_dict (history_of (loaded frepr w))
            then (case wr of
                    WriteOk \<Rightarrow> if encodable (PDict (recorded frepr now u n t w))
                               then Holds (PDict (recorded frepr now u n t w)) else Unreadable
                  | WriteRefused \<Rightarrow> mapping_file w
                  | WriteBroken \<Rightarrow> Unreadable)
            else mapping_file w)"
    unfolding eq recorded_def d
    by (simp add: accessors_record get_or_record history_without_eq write_mapping_def f
        did_def emit_def del: encodable.simps split: write_outcome.splits)
qed

lemma json_reload_record:
  "json_reload frepr (PDict (mk_record D M H L)) =
     PDict (mk_record (json_reload frepr D) (reload_dict frepr M) (map (json_reload frepr) H)
              (reload_dict frepr L))"
  by (simp add: mk_record_def dict_of_pairs_def reload_dict_def)

lemma load_missing:
  "mapping_file w = Missing \<or> mapping_file w = Unreadable \<Longrightarrow>
   loaded frepr w = SCHEMA_TEMPLATE (tmpl_vm w)"
  by (auto simp: loaded_def load_version_mapping_def)

lemma loaded_holds_record:
  "mapping_file w = Holds (PDict (mk_record D M H L)) \<Longrightarrow>
   loaded frepr w =
     mk_record (json_reload frepr D) (reload_dict frepr M)
       (last_n MAX_HISTORY (map (json_reload frepr) H)) (rebuild_last_sync (reload_dict frepr L))"
  by (simp add: loaded_def load_version_mapping_def json_reload_record ensure_schema_dict
      get_or_record py_dict_def norm_history_def norm_last_sync_def del: json_reload.simps)

lemma dict_get_in: "dict_get r k = Some v \<Longrightarrow> v \<in> snd ` set r"
  by (induction r) (auto split: if_splits)

lemma last_n_subset: "set (last_n n xs) \<subseteq> set xs"
  by (simp add: last_n_def set_drop_subset)

lemma last_n_in: "x \<in> set (last_n n xs) \<Longrightarrow> x \<in> set xs"
  by (simp add: last_n_def in_set_dropD)

lemma last_n_length: "length (last_n n xs) \<le> n"
  by (simp add: last_n_def)

lemma last_n_short: "length xs \<le> n \<Longrightarrow> last_n n xs = xs"
  by (simp add: last_n_def)

lemma norm_history_clean:
  assumes "json_clean (PDict r)"
  shows "list_all json_clean (norm_history (get_or r name (PList [])))"
proof (cases "dict_get r (KStr name)")
  case None
  then show ?thesis by (simp add: get_or_def norm_history_def last_n_def)
next
  case (Some v)
  then have "json_clean v"
    using assms dict_get_in [OF Some] by (auto simp: list_all_iff)
  then show ?thesis
    using Some
    by (cases v) (auto simp: get_or_def norm_history_def list_all_iff dest: last_n_in)
qed

lemma loaded_history:
  "list_all json_clean (history_of (loaded frepr w))"
  "length (history_of (loaded frepr w)) \<le> MAX_HISTORY"
proof -
  have "list_all json_clean (history_of (loaded frepr w))
        \<and> length (history_of (loaded frepr w)) \<le> MAX_HISTORY"
  proof (cases "mapping_file w")
    case (Holds v)
    show ?thesis
    proof (cases "ensure_schema (SCHEMA_TEMPLATE (tmpl_vm w)) (json_reload frepr v)")
      case (Inl e)
      with Holds show ?thesis
        by (simp add: loaded_def load_version_mapping_def template_record accessors_record)
    next
      case (Inr data)
      then obtain r where r: "json_reload frepr v = PDict r"
        using ensure_schema_not_dict [of "json_reload frepr v" "SCHEMA_TEMPLATE (tmpl_vm w)"]
        by auto
      have c: "json_clean (PDict r)"
        using json_clean_reload [of frepr v] r by simp
      from Inr r have "history_of data = norm_history (get_or r (str ''sync_history'') (PList []))"
        by (auto simp: ensure_schema_dict accessors_record split: sum.splits)
      moreover have "loaded frepr w = data"
        using Holds Inr by (simp add: loaded_def load_version_mapping_def)
      ultimately show ?thesis
        using norm_history_clean [OF c, of "str ''sync_history''"]
        by (auto simp: norm_history_def last_n_length split: pyval.splits)
    qed
  qed (simp_all add: load_missing template_record accessors_record)
  then show "list_all json_clean (history_of (loaded frepr w))"
    and "length (history_of (loaded frepr w)) \<le> MAX_HISTORY"
    by simp_all
qed

lemma entry_reload: "reload_dict frepr (sync_entry now u n t) = sync_entry now u n t"
proof -
  have "json_clean (PDict (sync_entry now u n t))"
    by (simp add: sync_entry_def)
  from json_reload_clean [OF this, of frepr] show ?thesis
    by (simp only: json_reload_PDict pyval.inject)
qed

lemma entry_rebuild: "rebuild_last_sync (sync_entry now u n t) = sync_entry now u n t"
  by (simp add: rebuild_last_sync_def sync_entry_def get_or_def)

lemma recorded_history:
  "list_all json_clean (history_of (recorded frepr now u n t w))"
  "length (history_of (recorded frepr now u n t w)) \<le> MAX_HISTORY"
proof -
  have "json_clean (PDict (sync_entry now u n t))"
    by (simp add: sync_entry_def)
  then show "list_all json_clean (history_of (recorded frepr now u n t w))"
    using loaded_history(1) [of frepr w]
    by (auto simp: recorded_def accessors_record list_all_iff dest!: last_n_in)
  show "length (history_of (recorded frepr now u n t w)) \<le> MAX_HISTORY"
    by (simp add: recorded_def accessors_record last_n_length)
qed

lemma loaded_after_save:
  assumes "mapping_file w' = Holds (PDict (recorded frepr now u n t w))"
  shows "history_of (loaded frepr w') = history_of (recorded frepr now u n t w)"
    and "last_sync_of (loaded frepr w') = PDict (sync_entry now u n t)"
proof -
  let ?H = "history_of (recorded frepr now u n t w)"
  have m: "map (json_reload frepr) ?H = ?H"
    using recorded_history(1) [of frepr now u n t w]
    by (intro map_idI) (simp add: list_all_iff json_reload_clean)
  have r: "recorded frepr now u n t w =
      mk_record (get_or (loaded frepr w) (str ''description'') PNone)
        (dict_set (mappings_of (loaded frepr w)) (KStr u) (PStr n)) ?H (sync_entry now u n t)"
    by (simp add: recorded_def accessors_record)
  have l: "loaded frepr w' =
      mk_record (json_reload frepr (get_or (loaded frepr w) (str ''description'') PNone))
        (reload_dict frepr (dict_set (mappings_of (loaded frepr w)) (KStr u) (PStr n)))
        (last_n MAX_HISTORY (map (json_reload frepr) ?H))
        (rebuild_last_sync (reload_dict frepr (sync_entry now u n t)))"
    using assms by (subst (asm) r) (rule loaded_holds_record)
  show "history_of (loaded frepr w') = ?H"
    unfolding l using recorded_history(2) [of frepr now u n t w]
    by (simp add: accessors_record m last_n_short)
  show "last_sync_of (loaded frepr w') = PDict (sync_entry now u n t)"
    unfolding l by (simp add: accessors_record entry_reload entry_rebuild)
qed

section \<open>Well-formed records\<close>

lemma well_formed_record:
  assumes "well_formed d"
  obtains D M H L where "d = mk_record D M H L" "json_clean D" "json_clean (PDict M)"
    "list_all json_clean H" "length H \<le> MAX_HISTORY" "json_clean (PDict L)"
    "map fst L = entry_keys"
proof -
  from assms have k: "map fst d = top_keys" by (simp add: well_formed_def)
  then obtain v1 v2 v3 v4 where d: "d =
      [(KStr (str ''description''), v1), (KStr (str ''version_mappings''), v2),
       (KStr (str ''sync_history''), v3), (KStr (str ''last_sync''), v4)]"
    by (auto simp: top_keys_def map_eq_Cons_conv)
  from assms d obtain M where M: "v2 = PDict M"
    by (cases v2) (auto simp: well_formed_def get_or_def)
  from assms d obtain H where H: "v3 = PList H" "length H \<le> MAX_HISTORY"
    by (cases v3) (auto simp: well_formed_def get_or_def)
  from assms d obtain L where L: "v4 = PDict L" "map fst L = entry_keys"
    by (cases v4) (auto simp: well_formed_def get_or_def)
  have "d = mk_record v1 M H L"
    by (simp add: d M H L mk_record_def)
  moreover from assms have "json_clean v1" "json_clean (PDict M)" "list_all json_clean H"
    "json_clean (PDict L)"
    unfolding well_formed_def d M H L by simp_all
  ultimately show ?thesis
    using that H(2) L(2) by blast
qed

lemma reload_dict_clean_id: "json_clean (PDict M) \<Longrightarrow> reload_dict frepr M = M"
  using json_reload_clean [of "PDict M" frepr] by (simp only: json_reload_PDict pyval.inject)

lemma rebuild_entry_keys: "map fst L = entry_keys \<Longrightarrow> rebuild_last_sync L = L"
  by (auto simp: entry_keys_def placeholder_def rebuild_last_sync_def get_or_def map_eq_Cons_conv)

lemma loaded_well_formed:
  assumes "well_formed d" "mapping_file w = Holds (PDict d)"
  shows "loaded frepr w = d"
proof -
  from assms(1) obtain D M H L where d: "d = mk_record D M H L" and c: "json_clean D"
    "json_clean (PDict M)" "list_all json_clean H" "length H \<le> MAX_HISTORY" "json_clean (PDict L)"
    "map fst L = entry_keys"
    by (rule well_formed_record)
  have "map (json_reload frepr) H = H"
    using c(3) by (intro map_idI) (simp add: list_all_iff json_reload_clean)
  with loaded_holds_record [OF assms(2) [unfolded d], of frepr] c show ?thesis
    by (simp add: d json_reload_clean reload_dict_clean_id rebuild_entry_keys last_n_short)
qed


lemma loaded_description:
  "json_clean (get_or (loaded frepr w) (str ''description'') PNone)"
proof (cases "mapping_file w")
  case (Holds v)
  show ?thesis
  proof (cases "ensure_schema (SCHEMA_TEMPLATE (tmpl_vm w)) (json_reload frepr v)")
    case (Inl e)
    with Holds show ?thesis
      by (simp add: loaded_def load_version_mapping_def template_record get_or_record)
  next
    case (Inr data)
    then obtain r where r: "json_reload frepr v = PDict r"
      using ensure_schema_not_dict [of "json_reload frepr v" "SCHEMA_TEMPLATE (tmpl_vm w)"]
      by auto
    have c: "json_clean (PDict r)"
      using json_clean_reload [of frepr v] r by simp
    have "json_clean (get_or r (str ''description'') (PStr default_description))"
    proof (cases "dict_get r (KStr (str ''description''))")
      case None
      then show ?thesis by (simp add: get_or_def)
    next
      case (Some x)
      with c dict_get_in [OF Some] show ?thesis
        by (auto simp: get_or_def list_all_iff)
    qed
    moreover from Inr r have "get_or data (str ''description'') PNone =
        get_or r (str ''description'') (PStr default_description)"
      by (auto simp: ensure_schema_dict get_or_record split: sum.splits)
    moreover have "loaded frepr w = data"
      using Holds Inr by (simp add: loaded_def load_version_mapping_def)
    ultimately show ?thesis by simp
  qed
qed (simp_all add: load_missing template_record get_or_record)

lemma recorded_well_formed:
  assumes "json_clean (PDict (mappings_of (loaded frepr w)))"
    and "encodable (PDict (recorded frepr now u n t w))"
  shows "well_formed (recorded frepr now u n t w)"
proof -
  let ?M = "dict_set (mappings_of (loaded frepr w)) (KStr u) (PStr n)"
  have m: "json_clean (PDict ?M)"
    using dict_set_invariant [of "mappings_of (loaded frepr w)" json_clean "PStr n" u] assms(1)
    by simp
  have e: "json_clean (PDict (sync_entry now u n t))"
    and k: "map fst (sync_entry now u n t) = entry_keys"
    by (simp_all add: sync_entry_def entry_keys_def placeholder_def)
  have h: "list_all json_clean (history_of (recorded frepr now u n t w))"
    "length (history_of (recorded frepr now u n t w)) \<le> MAX_HISTORY"
    by (rule recorded_history)+
  have r: "recorded frepr now u n t w =
      mk_record (get_or (loaded frepr w) (str ''description'') PNone) ?M
        (history_of (recorded frepr now u n t w)) (sync_entry now u n t)"
    by (simp add: recorded_def accessors_record)
  have c: "json_clean (PDict (recorded frepr now u n t w))"
    using m e h(1) loaded_description [of frepr w]
    by (subst r) (simp add: mk_record_def)
  have k1: "map fst (recorded frepr now u n t w) = top_keys"
    by (subst r) (simp add: keys_record)
  have g1: "is_dict (get_or (recorded frepr now u n t w) (str ''version_mappings'') PNone)"
    by (subst r) (simp add: get_or_record)
  have g2: "get_or (recorded frepr now u n t w) (str ''sync_history'') PNone =
      PList (history_of (recorded frepr now u n t w))"
    by (subst r) (simp add: get_or_record)
  have g3: "get_or (recorded frepr now u n t w) (str ''last_sync'') PNone =
      PDict (sync_entry now u n t)"
    by (subst r) (simp add: get_or_record)
  show ?thesis
    unfolding well_formed_def using c assms(2) k1 g1 g2 g3 h(2) k by simp
qed

section \<open>Sequences of calls\<close>

lemma last_n_append_long: "n \<le> length ys \<Longrightarrow> last_n n (xs @ ys) = last_n n ys"
  by (simp add: last_n_def)

lemma last_n_append_short:
  "length ys \<le> n \<Longrightarrow> last_n n (xs @ ys) = last_n (n - length ys) xs @ ys"
  by (simp add: last_n_def)

lemma filter_last_n_id: "filter P ys = ys \<Longrightarrow> filter P (last_n n ys) = last_n n ys"
  unfolding last_n_def by (metis filter_id_conv in_set_dropD)

lemma history_step:
  assumes "filter P es = es"
  shows "\<exists>R'. last_n n (filter P (last_n n (R @ es)) @ [e]) = last_n n (R' @ es @ [e])"
proof (cases "n \<le> length es")
  case True
  then have "last_n n (filter P (last_n n (R @ es)) @ [e]) = last_n n (last_n n es @ [e])"
    by (simp add: last_n_append_long filter_last_n_id assms)
  also have "\<dots> = last_n n ([] @ es @ [e])"
    using True by (simp add: last_n_def Suc_diff_le)
  finally show ?thesis by blast
next
  case False
  then have "last_n n (R @ es) = last_n (n - length es) R @ es"
    by (simp add: last_n_append_short)
  then have "last_n n (filter P (last_n n (R @ es)) @ [e]) =
      last_n n (filter P (last_n (n - length es) R) @ es @ [e])"
    by (simp add: assms)
  then show ?thesis by blast
qed

lemma is_for_event: "is_for u (event c) \<longleftrightarrow> c_upstream c = u"
  by (simp add: is_for_def event_def sync_entry_def get_or_def)

lemma record_all_snoc:
  "record_all frepr (cs @ [c]) w =
     (fst (record_all frepr cs w) @ [fst (record_call frepr c (snd (record_all frepr cs w)))],
      snd (record_call frepr c (snd (record_all frepr cs w))))"
  by (induction cs arbitrary: w) (simp_all split: prod.splits)

lemma record_call_success:
  assumes "fst (record_call frepr c w) = Inr ()"
  shows "mapping_file (snd (record_call frepr c w)) =
           Holds (PDict (recorded frepr (c_now c) (c_upstream c) (c_nad c) (c_trigger c) w))"
    and "c_upstream c \<noteq> []" and "c_nad c \<noteq> []" and "c_write c = WriteOk"
    and "list_all is_dict (history_of (loaded frepr w))"
    and "encodable (PDict (recorded frepr (c_now c) (c_upstream c) (c_nad c) (c_trigger c) w))"
proof -
  show u: "c_upstream c \<noteq> []" and n: "c_nad c \<noteq> []"
    using assms by (auto simp: record_call_def save_version_mapping_def split: if_splits)
  from assms save_outcome(1) [OF u n, of frepr "c_now c" "c_write c" "c_trigger c" w]
  show ok: "c_write c = WriteOk" and d: "list_all is_dict (history_of (loaded frepr w))"
    and e: "encodable (PDict (recorded frepr (c_now c) (c_upstream c) (c_nad c) (c_trigger c) w))"
    by (auto simp: record_call_def split: if_splits write_outcome.splits)
  from save_outcome(2) [OF u n, of frepr "c_now c" "c_write c" "c_trigger c" w] ok d e
  show "mapping_file (snd (record_call frepr c w)) =
           Holds (PDict (recorded frepr (c_now c) (c_upstream c) (c_nad c) (c_trigger c) w))"
    by (simp add: record_call_def)
qed

lemma record_call_history:
  assumes "fst (record_call frepr c w) = Inr ()"
  shows "history_of (loaded frepr (snd (record_call frepr c w))) =
           last_n MAX_HISTORY
             (filter (\<lambda>s. \<not> is_for (c_upstream c) s) (history_of (loaded frepr w)) @ [event c])"
  using loaded_after_save(1) [OF record_call_success(1) [OF assms]]
  by (simp add: recorded_def accessors_record event_def)

lemma record_all_history:
  assumes "list_all (\<lambda>r. r = Inr ()) (fst (record_all frepr cs w))"
    and "distinct (map c_upstream cs)"
  shows "\<exists>R. history_of (loaded frepr (snd (record_all frepr cs w))) =
              last_n MAX_HISTORY (R @ map event cs)"
  using assms
proof (induction cs rule: rev_induct)
  case Nil
  have "history_of (loaded frepr w) = last_n MAX_HISTORY (history_of (loaded frepr w) @ [])"
    using loaded_history(2) [of frepr w] by (simp add: last_n_short)
  then show ?case by auto
next
  case (snoc c cs)
  let ?w1 = "snd (record_all frepr cs w)"
  from snoc.prems have ok: "list_all (\<lambda>r. r = Inr ()) (fst (record_all frepr cs w))"
    and okc: "fst (record_call frepr c ?w1) = Inr ()"
    and dist: "distinct (map c_upstream cs)" and new: "c_upstream c \<notin> c_upstream ` set cs"
    by (simp_all add: record_all_snoc)
  from snoc.IH [OF ok dist] obtain R where
    R: "history_of (loaded frepr ?w1) = last_n MAX_HISTORY (R @ map event cs)"
    by blast
  have keep: "filter (\<lambda>s. \<not> is_for (c_upstream c) s) (map event cs) = map event cs"
    using new by (force simp: filter_id_conv is_for_event image_iff)
  from history_step [OF keep, of MAX_HISTORY R "event c"] obtain R' where
    "last_n MAX_HISTORY
       (filter (\<lambda>s. \<not> is_for (c_upstream c) s) (last_n MAX_HISTORY (R @ map event cs)) @ [event c])
     = last_n MAX_HISTORY (R' @ map event cs @ [event c])"
    by blast
  then have "history_of (loaded frepr (snd (record_all frepr (cs @ [c]) w))) =
      last_n MAX_HISTORY (R' @ map event (cs @ [c]))"
    by (simp add: record_all_snoc record_call_history [OF okc] R)
  then show ?case by blast
qed

lemma is_dict_event: "is_dict (event c)"
  by (simp add: event_def)

lemma str_ok_literals:
  "str_ok (str ''description'')" "str_ok (str ''version_mappings'')"
  "str_ok (str ''sync_history'')" "str_ok (str ''last_sync'')"
  "str_ok (str ''timestamp'')" "str_ok (str ''upstream_version'')"
  "str_ok (str ''nad_version'')" "str_ok (str ''trigger_type'')" "str_ok (str ''auto'')"
  "str_ok default_description" "str_ok []"
  by (simp_all add: str_ok_def surrogate_def str_def default_description_def)

lemma encodable_record:
  "encodable (PDict (mk_record D M H L)) \<longleftrightarrow>
     encodable D \<and> encodable (PDict M) \<and> list_all encodable H \<and> encodable (PDict L)"
  by (simp add: mk_record_def str_ok_literals)

lemma encodable_entry:
  "str_ok now \<Longrightarrow> str_ok u \<Longrightarrow> str_ok n \<Longrightarrow> str_ok t \<Longrightarrow>
   encodable (PDict (sync_entry now u n t))"
  by (simp add: sync_entry_def str_ok_literals)

lemma dict_set_encodable:
  "encodable (PDict d) \<Longrightarrow> key_ok k \<Longrightarrow> encodable v \<Longrightarrow> encodable (PDict (dict_set d k v))"
  by (induction d) auto

lemma encodable_recorded:
  assumes "encodable (PDict (loaded frepr w))"
    and "str_ok now" "str_ok u" "str_ok n" "str_ok t"
  shows "encodable (PDict (recorded frepr now u n t w))"
proof -
  obtain D M H L where l: "loaded frepr w = mk_record D M H L"
    using loaded_shape by blast
  have p: "encodable D" "encodable (PDict M)" "list_all encodable H"
    using assms(1) unfolding l encodable_record by simp_all
  have m: "encodable (PDict (dict_set M (KStr u) (PStr n)))"
    using p(2) assms(3,4) by (intro dict_set_encodable) simp_all
  have e: "encodable (PDict (sync_entry now u n t))"
    using assms(2-5) by (rule encodable_entry)
  have h: "list_all encodable
      (last_n MAX_HISTORY (filter (\<lambda>s. \<not> is_for u s) H @ [PDict (sync_entry now u n t)]))"
    using p(3) e by (auto simp: list_all_iff dest!: last_n_in)
  show ?thesis
    unfolding recorded_def l accessors_record get_or_record encodable_record
    using p(1) m h e by simp
qed

lemma sound_step:
  assumes "sound_store frepr w" and "ok_call c"
  shows "fst (record_call frepr c w) = Inr ()"
    and "sound_store frepr (snd (record_call frepr c w))"
proof -
  let ?R = "recorded frepr (c_now c) (c_upstream c) (c_nad c) (c_trigger c) w"
  from assms(1) have d: "list_all is_dict (history_of (loaded frepr w))"
    and j: "json_clean (PDict (mappings_of (loaded frepr w)))"
    and e: "encodable (PDict (loaded frepr w))"
    by (simp_all add: sound_store_def)
  from assms(2) have c: "c_upstream c \<noteq> []" "c_nad c \<noteq> []" "c_write c = WriteOk"
    and s: "str_ok (c_now c)" "str_ok (c_upstream c)" "str_ok (c_nad c)" "str_ok (c_trigger c)"
    by (simp_all add: ok_call_def)
  have r: "encodable (PDict ?R)"
    using e s by (rule encodable_recorded)
  show ok: "fst (record_call frepr c w) = Inr ()"
    using save_outcome(1) [OF c(1,2), of frepr "c_now c" "c_write c" "c_trigger c" w] c(3) d r
    by (simp add: record_call_def)
  have wf: "well_formed ?R"
    using j r by (rule recorded_well_formed)
  have l: "loaded frepr (snd (record_call frepr c w)) = ?R"
    using wf record_call_success(1) [OF ok] by (rule loaded_well_formed)
  have h: "list_all is_dict (history_of ?R)"
    using d by (auto simp: recorded_def accessors_record list_all_iff dest!: last_n_in)
  have m: "json_clean (PDict (mappings_of ?R))"
    using dict_set_invariant [of "mappings_of (loaded frepr w)" json_clean "PStr (c_nad c)"
        "c_upstream c"] j
    by (simp add: recorded_def accessors_record)
  show "sound_store frepr (snd (record_call frepr c w))"
    unfolding sound_store_def l using h m r by simp
qed

lemma record_all_succeeds:
  "list_all ok_call cs \<Longrightarrow> sound_store frepr w \<Longrightarrow>
   list_all (\<lambda>r. r = Inr ()) (fst (record_all frepr cs w))"
proof (induction cs arbitrary: w)
  case Nil
  then show ?case by simp
next
  case (Cons c cs)
  from Cons.prems have c: "ok_call c" and cs: "list_all ok_call cs"
    by simp_all
  from sound_step [OF Cons.prems(2) c] Cons.IH [OF cs, of "snd (record_call frepr c w)"]
  show ?case
    by (auto split: prod.splits)
qed

lemma sound_fresh: "sound_store frepr fresh"
proof -
  have "loaded frepr fresh = mk_record (PStr default_description) [] [] placeholder"
    by (simp add: load_missing fresh_def template_record)
  then show ?thesis
    unfolding sound_store_def
    by (simp only: accessors_record encodable_record)
      (simp add: str_ok_literals placeholder_def)
qed

lemma history_after_many:
  assumes "list_all (\<lambda>r. r = Inr ()) (fst (record_all frepr cs w))"
    and "distinct (map c_upstream cs)" and "MAX_HISTORY \<le> length cs"
  shows "\<exists>d. mapping_file (snd (record_all frepr cs w)) = Holds (PDict d)
            \<and> history_of d = map event (drop (length cs - MAX_HISTORY) cs)"
proof -
  from assms(3) have "cs \<noteq> []" by (auto simp: MAX_HISTORY_def)
  then obtain cs' c where cs: "cs = cs' @ [c]"
    by (metis rev_exhaust)
  let ?w1 = "snd (record_all frepr cs' w)"
  let ?d = "recorded frepr (c_now c) (c_upstream c) (c_nad c) (c_trigger c) ?w1"
  from assms(1) cs have okc: "fst (record_call frepr c ?w1) = Inr ()"
    by (simp add: record_all_snoc)
  have f: "mapping_file (snd (record_all frepr cs w)) = Holds (PDict ?d)"
    using record_call_success(1) [OF okc] cs by (simp add: record_all_snoc)
  from record_all_history [OF assms(1,2)] obtain R where
    "history_of (loaded frepr (snd (record_all frepr cs w))) = last_n MAX_HISTORY (R @ map event cs)"
    by blast
  then have "history_of ?d = last_n MAX_HISTORY (R @ map event cs)"
    using loaded_after_save(1) [OF f] by simp
  also have "\<dots> = map event (drop (length cs - MAX_HISTORY) cs)"
    using assms(3) by (simp add: last_n_append_long) (simp add: last_n_def drop_map)
  finally show ?thesis
    using f by blast
qed

text \<open>
  C5. A call of \<open>save_version_mapping\<close> that returns has written a record whose
  \<open>sync_history\<close> has at most 20 entries. After more than 20 calls in a row that all
  return, for pairwise distinct upstream versions and from any state, the \<open>sync_history\<close>
  in the file has exactly 20 entries: the events of the last 20 calls, oldest first.
\<close>

theorem sync_history_bounded:
  "(fst (save_version_mapping frepr now wr u n t w) = Inr () \<longrightarrow>
      (\<exists>d. mapping_file (snd (save_version_mapping frepr now wr u n t w)) = Holds (PDict d)
          \<and> length (history_of d) \<le> 20))
   \<and> (list_all (\<lambda>r. r = Inr ()) (fst (record_all frepr cs w))
        \<and> distinct (map c_upstream cs) \<and> 20 < length cs \<longrightarrow>
      (\<exists>d. mapping_file (snd (record_all frepr cs w)) = Holds (PDict d)
          \<and> length (history_of d) = 20
          \<and> history_of d = map event (drop (length cs - 20) cs)))"
proof -
  have one: "\<exists>d. mapping_file (snd (save_version_mapping frepr now wr u n t w)) = Holds (PDict d)
          \<and> length (history_of d) \<le> 20"
    if "fst (save_version_mapping frepr now wr u n t w) = Inr ()"
  proof -
    from that have "fst (record_call frepr (Call now wr u n t) w) = Inr ()"
      by (simp add: record_call_def)
    from record_call_success(1) [OF this]
    have "mapping_file (snd (save_version_mapping frepr now wr u n t w)) =
        Holds (PDict (recorded frepr now u n t w))"
      by (simp add: record_call_def)
    then show ?thesis
      using recorded_history(2) [of frepr now u n t w] by (auto simp: MAX_HISTORY_def)
  qed
  have many: "\<exists>d. mapping_file (snd (record_all frepr cs w)) = Holds (PDict d)
          \<and> length (history_of d) = 20
          \<and> history_of d = map event (drop (length cs - 20) cs)"
    if "list_all (\<lambda>r. r = Inr ()) (fst (record_all frepr cs w))"
      and "distinct (map c_upstream cs)" and "20 < length cs"
  proof -
    from that(3) have "MAX_HISTORY \<le> length cs" by (simp add: MAX_HISTORY_def)
    from history_after_many [OF that(1,2) this] that(3) show ?thesis
      by (auto simp: MAX_HISTORY_def)
  qed
  from one many show ?thesis by blast
qed


theorem sync_history_bounded_witness:
  "list_all (\<lambda>r. r = Inr ()) (fst (record_all (\<lambda>f. []) calls21 fresh))
   \<and> distinct (map c_upstream calls21) \<and> 20 < length calls21
   \<and> (\<exists>d. mapping_file (snd (record_all (\<lambda>f. []) calls21 fresh)) = Holds (PDict d)
          \<and> length (history_of d) = 20
          \<and> history_of d = map event (drop 1 calls21))"
proof -
  have ok: "list_all (\<lambda>r. r = Inr ()) (fst (record_all (\<lambda>f. []) calls21 fresh))"
    by (rule record_all_succeeds)
      (simp_all add: calls21_def ok_call_def str_ok_def surrogate_def str_def sound_fresh)
  have d: "distinct (map c_upstream calls21)" and l: "20 < length calls21"
    and n: "length calls21 - 20 = 1"
    by (simp_all add: calls21_def)
  from sync_history_bounded [of "\<lambda>f. []" "[]" WriteOk "[]" "[]" "[]" fresh calls21] ok d l n
  show ?thesis by simp
qed

section \<open>Recording the same upstream version twice\<close>

lemma dict_get_set_same: "dict_get (dict_set d (KStr s) v) (KStr s) = Some v"
  by (induction d) auto

lemma is_for_entry: "is_for u (PDict (sync_entry now u n t))"
  by (simp add: is_for_def sync_entry_def get_or_def)

lemma last_n_snoc: "0 < n \<Longrightarrow> last_n n (xs @ [x]) = last_n (n - 1) xs @ [x]"
  by (simp add: last_n_append_short)

lemma recorded_entries:
  "filter (is_for u) (history_of (recorded frepr now u n t w)) = [PDict (sync_entry now u n t)]"
  "last (history_of (recorded frepr now u n t w)) = PDict (sync_entry now u n t)"
  "dict_get (mappings_of (recorded frepr now u n t w)) (KStr u) = Some (PStr n)"
  "last_sync_of (recorded frepr now u n t w) = PDict (sync_entry now u n t)"
proof -
  let ?K = "filter (\<lambda>s. \<not> is_for u s) (history_of (loaded frepr w))"
  have h: "history_of (recorded frepr now u n t w) =
      last_n (MAX_HISTORY - 1) ?K @ [PDict (sync_entry now u n t)]"
    by (simp add: recorded_def accessors_record last_n_snoc MAX_HISTORY_def)
  have "filter (is_for u) (last_n (MAX_HISTORY - 1) ?K) = []"
    by (auto simp: filter_empty_conv dest!: last_n_in)
  then show "filter (is_for u) (history_of (recorded frepr now u n t w)) = [PDict (sync_entry now u n t)]"
    by (simp add: h is_for_entry)
  show "last (history_of (recorded frepr now u n t w)) = PDict (sync_entry now u n t)"
    by (simp add: h)
  show "dict_get (mappings_of (recorded frepr now u n t w)) (KStr u) = Some (PStr n)"
    by (simp add: recorded_def accessors_record dict_get_set_same)
  show "last_sync_of (recorded frepr now u n t w) = PDict (sync_entry now u n t)"
    by (simp add: recorded_def accessors_record)
qed

lemma save_success:
  assumes "fst (save_version_mapping frepr now wr u n t w) = Inr ()"
  shows "mapping_file (snd (save_version_mapping frepr now wr u n t w)) =
           Holds (PDict (recorded frepr now u n t w))"
  using record_call_success(1) [of frepr "Call now wr u n t" w] assms
  by (simp add: record_call_def)

text \<open>
  C6. Two calls of \<open>save_version_mapping\<close> for the same upstream version \<open>u\<close>, the
  second of which returns: the \<open>sync_history\<close> in the file then has exactly one entry
  whose \<open>upstream_version\<close> is \<open>u\<close>, the event of the second call, and it is the last
  entry; and \<open>version_mappings[u]\<close> is the second NAD version.
\<close>

theorem record_twice_same_upstream:
  assumes "fst (save_version_mapping frepr now2 wr2 u n2 t2
                  (snd (save_version_mapping frepr now1 wr1 u n1 t1 w))) = Inr ()"
  shows "\<exists>d. mapping_file (snd (save_version_mapping frepr now2 wr2 u n2 t2
                  (snd (save_version_mapping frepr now1 wr1 u n1 t1 w)))) = Holds (PDict d)
           \<and> filter (is_for u) (history_of d) = [PDict (sync_entry now2 u n2 t2)]
           \<and> last (history_of d) = PDict (sync_entry now2 u n2 t2)
           \<and> dict_get (mappings_of d) (KStr u) = Some (PStr n2)"
  using save_success [OF assms] recorded_entries(1,2,3) by blast

theorem record_twice_same_upstream_witness:
  "fst (save_version_mapping (\<lambda>f. []) (str ''2025-01-02T00:00:00Z'') WriteOk (str ''33.0.0'')
          (str ''33.0.0-no-aja'') (str ''manual'')
          (snd (save_version_mapping (\<lambda>f. []) (str ''2025-01-01T00:00:00Z'') WriteOk
                  (str ''33.0.0'') (str ''33.0.0-beta'') (str ''auto'') fresh))) = Inr ()
   \<and> (\<exists>d. mapping_file
            (snd (save_version_mapping (\<lambda>f. []) (str ''2025-01-02T00:00:00Z'') WriteOk
                    (str ''33.0.0'') (str ''33.0.0-no-aja'') (str ''manual'')
                    (snd (save_version_mapping (\<lambda>f. []) (str ''2025-01-01T00:00:00Z'') WriteOk
                            (str ''33.0.0'') (str ''33.0.0-beta'') (str ''auto'') fresh))))
          = Holds (PDict d)
        \<and> filter (is_for (str ''33.0.0'')) (history_of d) =
            [PDict (sync_entry (str ''2025-01-02T00:00:00Z'') (str ''33.0.0'')
                      (str ''33.0.0-no-aja'') (str ''manual''))]
        \<and> dict_get (mappings_of d) (KStr (str ''33.0.0'')) = Some (PStr (str ''33.0.0-no-aja'')))"
proof -
  let ?c1 = "Call (str ''2025-01-01T00:00:00Z'') WriteOk (str ''33.0.0'') (str ''33.0.0-beta'')
               (str ''auto'')"
  let ?c2 = "Call (str ''2025-01-02T00:00:00Z'') WriteOk (str ''33.0.0'') (str ''33.0.0-no-aja'')
               (str ''manual'')"
  have "list_all (\<lambda>r. r = Inr ()) (fst (record_all (\<lambda>f. []) [?c1, ?c2] fresh))"
    by (rule record_all_succeeds)
      (simp_all add: ok_call_def str_ok_def surrogate_def str_def sound_fresh)
  then have ok: "fst (save_version_mapping (\<lambda>f. []) (str ''2025-01-02T00:00:00Z'') WriteOk
          (str ''33.0.0'') (str ''33.0.0-no-aja'') (str ''manual'')
          (snd (save_version_mapping (\<lambda>f. []) (str ''2025-01-01T00:00:00Z'') WriteOk
                  (str ''33.0.0'') (str ''33.0.0-beta'') (str ''auto'') fresh))) = Inr ()"
    by (auto simp: record_call_def split: prod.splits)
  from record_twice_same_upstream [OF ok] ok show ?thesis by blast
qed

section \<open>The keys of a record\<close>

lemma dict_get_None: "dict_get d (KStr s) = None \<longleftrightarrow> KStr s \<notin> fst ` set d"
  by (induction d) (force split: if_splits)+

text \<open>
  C10. The record that \<open>load_version_mapping\<close> returns has the four keys of
  \<open>SCHEMA_TEMPLATE\<close>, in its order, and no other: a string is a key of the record
  exactly when it is one of the four. The same holds for whatever \<open>_ensure_schema\<close>
  returns and for the record that a call of \<open>save_version_mapping\<close> writes, so a
  field of the file that is not one of the four is gone after a load and a write.
\<close>

theorem loaded_has_the_four_keys:
  "map fst (loaded frepr w) = top_keys
   \<and> (dict_get (loaded frepr w) (KStr s) \<noteq> None \<longleftrightarrow> KStr s \<in> set top_keys)
   \<and> (case ensure_schema (SCHEMA_TEMPLATE vm) raw of
         Inl e \<Rightarrow> True | Inr data \<Rightarrow> map fst data = top_keys)
   \<and> (case fst (save_version_mapping frepr now wr u n t w) of
         Inl e \<Rightarrow> True
       | Inr _ \<Rightarrow> \<exists>d. mapping_file (snd (save_version_mapping frepr now wr u n t w)) = Holds (PDict d)
                    \<and> map fst d = top_keys)"
proof -
  obtain D M H L where "loaded frepr w = mk_record D M H L"
    using loaded_shape by blast
  then have a: "map fst (loaded frepr w) = top_keys"
    by (simp add: keys_record)
  have b: "dict_get (loaded frepr w) (KStr s) \<noteq> None \<longleftrightarrow> KStr s \<in> set top_keys"
    unfolding dict_get_None using a by (metis set_map)
  have c: "(case ensure_schema (SCHEMA_TEMPLATE vm) raw of
         Inl e \<Rightarrow> True | Inr data \<Rightarrow> map fst data = top_keys)"
    by (auto split: sum.splits dest!: ensure_schema_shape simp: keys_record)
  have d: "(case fst (save_version_mapping frepr now wr u n t w) of
         Inl e \<Rightarrow> True
       | Inr _ \<Rightarrow> \<exists>d. mapping_file (snd (save_version_mapping frepr now wr u n t w)) = Holds (PDict d)
                    \<and> map fst d = top_keys)"
    using save_success [of frepr now wr u n t w]
    by (auto split: sum.splits simp: recorded_def keys_record)
  from a b c d show ?thesis by blast
qed

lemma reload_legacy: "json_reload frepr legacy = legacy"
  by (simp add: legacy_def dict_of_pairs_def sync_entry_def)

text \<open>
  C1 fails on the code. \<open>dict(raw.get("version_mappings", {}))\<close> raises \<open>TypeError\<close> on
  a number, and \<open>load_version_mapping\<close> answers every exception with
  \<open>dict(SCHEMA_TEMPLATE)\<close>: of the file \<open>legacy\<close> neither the description nor the
  history entry is kept.
\<close>

theorem wrong_type_mappings_discard_the_file:
  "ensure_schema (SCHEMA_TEMPLATE []) legacy = Inl TypeError
   \<and> loaded frepr (fresh\<lparr>mapping_file := Holds legacy\<rparr>) = SCHEMA_TEMPLATE []
   \<and> get_or (loaded frepr (fresh\<lparr>mapping_file := Holds legacy\<rparr>)) (str ''description'') PNone
       = PStr default_description
   \<and> get_or (loaded frepr (fresh\<lparr>mapping_file := Holds legacy\<rparr>)) (str ''sync_history'') PNone
       = PList []"
proof -
  have e: "ensure_schema (SCHEMA_TEMPLATE vm) legacy = Inl TypeError" for vm
    by (simp add: legacy_def ensure_schema_dict get_or_def py_dict_def)
  have l: "loaded frepr (fresh\<lparr>mapping_file := Holds legacy\<rparr>) = SCHEMA_TEMPLATE []"
    by (simp add: loaded_def load_version_mapping_def reload_legacy e fresh_def)
  have d: "get_or (SCHEMA_TEMPLATE []) (str ''description'') PNone = PStr default_description"
    and h: "get_or (SCHEMA_TEMPLATE []) (str ''sync_history'') PNone = PList []"
    by (simp_all add: template_record get_or_record)
  from e [of "[]"] l d h show ?thesis by simp
qed

section \<open>The last event\<close>




lemma history_lines_file:
  "mapping_file (snd (history_lines i es w)) = mapping_file w"
  by (induction es arbitrary: i w) (auto simp: emit_def split: sum.splits)

lemma list_mappings_file:
  "mapping_file (snd (list_mappings frepr w)) = mapping_file w"
proof -
  obtain d sh w1 where l: "load_version_mapping frepr w = ((d, sh), w1)"
    by (metis prod.collapse)
  then have f: "mapping_file w1 = mapping_file w"
    using load_world(1) [of frepr w] by simp
  show ?thesis
    unfolding list_mappings_def l
    by (auto simp: Let_def f emit_def history_lines_file
        split: prod.splits sum.splits pyval.splits if_splits
        dest: arg_cong [where f = "\<lambda>p. mapping_file (snd p)"])
qed


















section \<open>Loading a record and writing it back\<close>

text \<open>
  C9. Let the backing file hold a well-formed record \<open>d\<close>, such as a call of
  \<open>save_version_mapping\<close> writes. Then \<open>load_version_mapping\<close> returns \<open>d\<close>, and
  \<open>_write_mapping\<close> of it hands the same \<open>d\<close> to
  \<open>json.dump(..., indent=2, ensure_ascii=False)\<close>: the file holds the same document as
  before, and so, the text being a function of the value, the same bytes.
\<close>

theorem write_of_load_is_stable:
  assumes "well_formed d" and "mapping_file w = Holds (PDict d)"
  shows "loaded frepr w = d
       \<and> fst (write_mapping WriteOk (loaded frepr w) (snd (load_version_mapping frepr w))) = Inr ()
       \<and> mapping_file (snd (write_mapping WriteOk (loaded frepr w)
                              (snd (load_version_mapping frepr w)))) = mapping_file w
       \<and> last (io_log (snd (write_mapping WriteOk (loaded frepr w)
                              (snd (load_version_mapping frepr w))))) = WriteFile (PDict d)"
proof -
  from assms(1) have "encodable (PDict d)"
    by (simp add: well_formed_def del: encodable.simps)
  with loaded_well_formed [OF assms, of frepr] assms(2) show ?thesis
    by (simp add: write_mapping_def did_def del: encodable.simps)
qed

theorem write_of_load_is_stable_witness:
  "well_formed (recorded (\<lambda>f. []) (str ''2025-01-01T00:00:00Z'') (str ''33.0.0'')
                  (str ''33.0.0-no-aja'') (str ''manual'') fresh)
   \<and> mapping_file (snd (save_version_mapping (\<lambda>f. []) (str ''2025-01-01T00:00:00Z'') WriteOk
                          (str ''33.0.0'') (str ''33.0.0-no-aja'') (str ''manual'') fresh))
       = Holds (PDict (recorded (\<lambda>f. []) (str ''2025-01-01T00:00:00Z'') (str ''33.0.0'')
                         (str ''33.0.0-no-aja'') (str ''manual'') fresh))
   \<and> mapping_file
        (snd (write_mapping WriteOk
                (loaded (\<lambda>f. [])
                   (snd (save_version_mapping (\<lambda>f. []) (str ''2025-01-01T00:00:00Z'') WriteOk
                           (str ''33.0.0'') (str ''33.0.0-no-aja'') (str ''manual'') fresh)))
                (snd (load_version_mapping (\<lambda>f. [])
                        (snd (save_version_mapping (\<lambda>f. []) (str ''2025-01-01T00:00:00Z'')
                                WriteOk (str ''33.0.0'') (str ''33.0.0-no-aja'') (str ''manual'')
                                fresh))))))
       = Holds (PDict (recorded (\<lambda>f. []) (str ''2025-01-01T00:00:00Z'') (str ''33.0.0'')
                         (str ''33.0.0-no-aja'') (str ''manual'') fresh))"
proof -
  let ?d = "recorded (\<lambda>f. []) (str ''2025-01-01T00:00:00Z'') (str ''33.0.0'')
              (str ''33.0.0-no-aja'') (str ''manual'') fresh"
  let ?w = "snd (save_version_mapping (\<lambda>f. []) (str ''2025-01-01T00:00:00Z'') WriteOk
                   (str ''33.0.0'') (str ''33.0.0-no-aja'') (str ''manual'') fresh)"
  have s: "sound_store (\<lambda>f. []) fresh"
    by (rule sound_fresh)
  then have j: "json_clean (PDict (mappings_of (loaded (\<lambda>f. []) fresh)))"
    and l: "encodable (PDict (loaded (\<lambda>f. []) fresh))"
    by (simp_all add: sound_store_def)
  have "encodable (PDict ?d)"
    by (rule encodable_recorded [OF l]) (simp_all add: str_ok_def surrogate_def str_def)
  with j have wf: "well_formed ?d"
    by (rule recorded_well_formed)
  have "ok_call (Call (str ''2025-01-01T00:00:00Z'') WriteOk (str ''33.0.0'')
                   (str ''33.0.0-no-aja'') (str ''manual''))"
    by (simp add: ok_call_def str_ok_def surrogate_def str_def)
  from sound_step(1) [OF s this]
  have "fst (save_version_mapping (\<lambda>f. []) (str ''2025-01-01T00:00:00Z'') WriteOk
               (str ''33.0.0'') (str ''33.0.0-no-aja'') (str ''manual'') fresh) = Inr ()"
    by (simp add: record_call_def)
  then have f: "mapping_file ?w = Holds (PDict ?d)"
    by (rule save_success)
  from write_of_load_is_stable [OF wf f, of "\<lambda>f. []"]
  have "mapping_file (snd (write_mapping WriteOk (loaded (\<lambda>f. []) ?w)
                             (snd (load_version_mapping (\<lambda>f. []) ?w)))) = mapping_file ?w"
    by blast
  with wf f show ?thesis
    by (simp only: simp_thms)
qed

section \<open>The command line\<close>

lemma example_parser_contract: "argparse_contract example_parser"
  by (auto simp: argparse_contract_def example_parser_def subcommands_def is_option_def str_def)

text \<open>
  C3, as the code has it. With no argument \<open>main\<close> prints the usage text and returns 0.
  With a first argument that does not begin with \<open>-\<close> and is not one of the three
  subcommands, \<open>parse_args\<close> rejects the command line: an error on standard error and exit
  status 2; the usage text is not what is printed, and the status is not 0.
\<close>

theorem main_unrecognized_command:
  assumes "argparse_contract parse_args"
  shows "main parse_args e [] w = (0, emit Usage w)
       \<and> (\<not> is_option s \<and> s \<notin> set subcommands \<longrightarrow>
            main parse_args e (s # rest) w = (2, emit ArgparseError w))"
  using assms by (simp add: main_def argparse_contract_def emit_def)

theorem main_unrecognized_command_witness:
  "argparse_contract example_parser
   \<and> \<not> is_option (str ''bogus'') \<and> str ''bogus'' \<notin> set subcommands
   \<and> main example_parser env0 [] fresh = (0, emit Usage fresh)
   \<and> main example_parser env0 [str ''bogus'', str ''now''] fresh = (2, emit ArgparseError fresh)"
proof -
  have b: "\<not> is_option (str ''bogus'')" "str ''bogus'' \<notin> set subcommands"
    by (simp_all add: is_option_def subcommands_def str_def)
  from main_unrecognized_command [OF example_parser_contract, of env0 fresh "str ''bogus''"
      "[str ''now'']"] b example_parser_contract
  show ?thesis by (simp add: emit_def)
qed

text \<open>
  C3 as stated fails: \<open>bogus\<close> is none of the three subcommands, and the exit status is 2,
  with the error of \<open>argparse\<close> printed, not the usage text.
\<close>

theorem main_bogus_exits_2:
  "argparse_contract example_parser
   \<and> fst (main example_parser env0 [str ''bogus''] fresh) = 2
   \<and> fst (main example_parser env0 [str ''bogus''] fresh) \<noteq> 0
   \<and> printed (snd (main example_parser env0 [str ''bogus''] fresh)) = [ArgparseError]"
proof -
  have "main example_parser env0 [str ''bogus''] fresh = (2, emit ArgparseError fresh)"
    by (simp add: main_def example_parser_def emit_def str_def)
  then show ?thesis
    by (simp add: example_parser_contract emit_def fresh_def)
qed

lemma reload_partial_entry: "json_reload frepr partial_entry = partial_entry"
  by (simp add: partial_entry_def dict_of_pairs_def)

lemma loaded_partial_entry:
  "load_version_mapping frepr (fresh\<lparr>mapping_file := Holds partial_entry\<rparr>) =
     ((mk_record (PStr default_description) []
         [PDict [(KStr (str ''upstream_version''), PStr (str ''32.0.0'')),
                 (KStr (str ''nad_version''), PStr (str ''32.0.0-no-aja''))]] placeholder, False),
      did [Exists, ReadFile] (fresh\<lparr>mapping_file := Holds partial_entry\<rparr>))"
proof -
  have "ensure_schema (SCHEMA_TEMPLATE vm) partial_entry =
      Inr (mk_record (PStr default_description) []
         [PDict [(KStr (str ''upstream_version''), PStr (str ''32.0.0'')),
                 (KStr (str ''nad_version''), PStr (str ''32.0.0-no-aja''))]] placeholder)" for vm
    by (simp add: partial_entry_def ensure_schema_dict get_or_def py_dict_def norm_history_def
        norm_last_sync_def last_n_def MAX_HISTORY_def rebuild_last_sync_def placeholder_def)
  then show ?thesis
    by (simp add: load_version_mapping_def reload_partial_entry)
qed

text \<open>
  C4 fails on the code. \<open>list_mappings\<close> reads the four fields of a history entry by
  subscript, so an entry without \<open>timestamp\<close> raises \<open>KeyError\<close> after the header of
  the history section is printed; \<open>main\<close> does not catch it, and the exit status of the
  process is 1. The file is not changed.
\<close>

theorem list_raises_on_partial_entry:
  "fst (list_mappings frepr (fresh\<lparr>mapping_file := Holds partial_entry\<rparr>)) = Inl KeyError
   \<and> fst (run_command e ListMappings (fresh\<lparr>mapping_file := Holds partial_entry\<rparr>)) = 1
   \<and> fst (main example_parser e [str ''list''] (fresh\<lparr>mapping_file := Holds partial_entry\<rparr>)) = 1
   \<and> mapping_file (snd (run_command e ListMappings (fresh\<lparr>mapping_file := Holds partial_entry\<rparr>)))
       = Holds partial_entry"
proof -
  have l: "fst (list_mappings f (fresh\<lparr>mapping_file := Holds partial_entry\<rparr>)) = Inl KeyError" for f
    by (simp add: list_mappings_def loaded_partial_entry get_or_record history_line_def
        subscript_def)
  have r: "fst (run_command e ListMappings (fresh\<lparr>mapping_file := Holds partial_entry\<rparr>)) = 1"
    using l [of "float_repr e"] by (auto simp: run_command_def split: prod.splits sum.splits)
  have m: "main example_parser e [str ''list''] (fresh\<lparr>mapping_file := Holds partial_entry\<rparr>) =
      run_command e ListMappings (fresh\<lparr>mapping_file := Holds partial_entry\<rparr>)"
    by (simp add: main_def example_parser_def)
  have f: "mapping_file (snd (run_command e ListMappings (fresh\<lparr>mapping_file := Holds partial_entry\<rparr>)))
       = Holds partial_entry"
    using list_mappings_file [of "float_repr e" "fresh\<lparr>mapping_file := Holds partial_entry\<rparr>"]
    by (auto simp: run_command_def emit_def split: prod.splits sum.splits)
  from l r m f show ?thesis by simp
qed

end
